theory Spec2Isabelle
  imports Complex_Main "HOL-Library.AList"
begin

section \<open>Python values\<close>

text \<open>
  The loader passes dynamically typed values around: cells of a data frame, fields of a
  JSON document, results of the mapping lookups. \<open>pyval\<close> is the tagged union of the
  values that occur: \<open>None\<close>, booleans, integers, floats, strings, lists, and
  \<open>PObj\<close> for an opaque object such as a storage identifier, equal only to itself.
  \<open>PNaN n\<close> is a float not-a-number, with \<open>n\<close> naming the object: no NaN is \<open>==\<close> to
  anything, but the comparison of two lists takes an element that is the same object
  on both sides for equal, and a NaN is the one value for which that differs from
  \<open>==\<close>. \<open>np_nan\<close> is \<open>np.nan\<close>, the NaN that pandas uses for a missing cell.
\<close>

datatype pyval =
    PNone
  | PBool bool
  | PInt int
  | PFloat real
  | PNaN nat
  | PStr string
  | PList "pyval list"
  | PObj nat

definition np_nan :: pyval where
  "np_nan = PNaN 0"

text \<open>The exceptions that the modelled code can raise.\<close>

datatype pyerr = KeyError | NameError | TypeError | ValueError

text \<open>The numeric value of a bool, int or finite float: Python compares these across types.\<close>

fun py_num :: "pyval \<Rightarrow> real option" where
  "py_num (PBool b) = Some (if b then 1 else 0)"
| "py_num (PInt i) = Some (of_int i)"
| "py_num (PFloat r) = Some r"
| "py_num _ = None"

text \<open>The identity test \<open>x is y\<close>, where it can differ from \<open>==\<close>: on two NaNs.\<close>

fun same_nan :: "pyval \<Rightarrow> pyval \<Rightarrow> bool" where
  "same_nan (PNaN i) (PNaN j) = (i = j)"
| "same_nan _ _ = False"

text \<open>
  Python's \<open>==\<close>. A NaN is equal to nothing, itself included; two lists are equal when
  they have the same length and each pair of elements is the same object or equal.
\<close>

fun py_eq :: "pyval \<Rightarrow> pyval \<Rightarrow> bool"
  and py_eq_list :: "pyval list \<Rightarrow> pyval list \<Rightarrow> bool" where
  "py_eq PNone w = (w = PNone)"
| "py_eq (PBool b) w = (py_num w = py_num (PBool b))"
| "py_eq (PInt i) w = (py_num w = py_num (PInt i))"
| "py_eq (PFloat r) w = (py_num w = py_num (PFloat r))"
| "py_eq (PNaN n) w = False"
| "py_eq (PStr s) w = (w = PStr s)"
| "py_eq (PObj n) w = (w = PObj n)"
| "py_eq (PList xs) w = (case w of PList ys \<Rightarrow> py_eq_list xs ys | _ \<Rightarrow> False)"
| "py_eq_list [] ys = (ys = [])"
| "py_eq_list (x # xs) ys = (case ys of [] \<Rightarrow> False | y # ys' \<Rightarrow> (same_nan x y \<or> py_eq x y) \<and> py_eq_list xs ys')"

text \<open>Truthiness, as \<open>if value:\<close> tests it.\<close>

fun truthy :: "pyval \<Rightarrow> bool" where
  "truthy PNone = False"
| "truthy (PBool b) = b"
| "truthy (PInt i) = (i \<noteq> 0)"
| "truthy (PFloat r) = (r \<noteq> 0)"
| "truthy (PNaN n) = True"
| "truthy (PStr s) = (s \<noteq> [])"
| "truthy (PList xs) = (xs \<noteq> [])"
| "truthy (PObj n) = True"

text \<open>\<open>pd.isnull\<close> on a scalar: \<open>None\<close> and NaN are null.\<close>

fun isnull :: "pyval \<Rightarrow> bool" where
  "isnull PNone = True"
| "isnull (PNaN n) = True"
| "isnull _ = False"

fun is_list :: "pyval \<Rightarrow> bool" where
  "is_list (PList xs) = True"
| "is_list _ = False"

section \<open>Gene-call decomposition (rearrangement.py)\<close>

text \<open>
  \<open>re.split(',| |\|', gene)\<close>: cut the string at every comma, space and pipe. Empty
  pieces are kept, so the result is never empty.
\<close>

definition is_delim :: "char \<Rightarrow> bool" where
  "is_delim c = (c = CHR '','' \<or> c = CHR '' '' \<or> c = CHR ''|'')"

fun re_split :: "string \<Rightarrow> string list" where
  "re_split [] = ['''']"
| "re_split (c # cs) =
     (if is_delim c then [] # re_split cs
      else (case re_split cs of [] \<Rightarrow> [c # ''''] | t # ts \<Rightarrow> (c # t) # ts))"

definition startswith :: "string \<Rightarrow> string \<Rightarrow> bool" where
  "startswith s pre = (take (length pre) s = pre)"

text \<open>The test of the loop of \<open>setGene\<close>: the token starts with IG or TR.\<close>

definition is_locus_token :: "string \<Rightarrow> bool" where
  "is_locus_token t = (startswith t ''IG'' \<or> startswith t ''TR'')"

text \<open>
  \<open>list(set(xs))\<close> lists the distinct elements of \<open>xs\<close> in the iteration order of the
  interpreter's set, which the language does not fix. The order is a parameter
  \<open>list_set\<close> of the model; \<open>set_order\<close> says what every interpreter guarantees.
\<close>

definition set_order :: "(string list \<Rightarrow> string list) \<Rightarrow> bool" where
  "set_order list_set = (\<forall>xs. distinct (list_set xs) \<and> set (list_set xs) = set xs)"

text \<open>The \<open>for current_gene in gene_orig_list\<close> loop, appending to \<open>gene_list\<close>.\<close>

fun setGene_loop :: "string \<Rightarrow> string list \<Rightarrow> string list \<Rightarrow> string list" where
  "setGene_loop locus_with_chain [] gene_list = gene_list"
| "setGene_loop locus_with_chain (current_gene # rest) gene_list =
     (if startswith current_gene ''IG'' \<or> startswith current_gene ''TR''
      then setGene_loop locus_with_chain rest (gene_list @ [current_gene])
      else if CHR ''-'' \<in> set current_gene
      then setGene_loop locus_with_chain rest (gene_list @ [locus_with_chain @ current_gene])
      else setGene_loop locus_with_chain rest gene_list)"

definition setGene :: "(string list \<Rightarrow> string list) \<Rightarrow> pyval \<Rightarrow> string list" where
  "setGene list_set gene =
     (case gene of
        PStr g \<Rightarrow>
          if g = [] then []
          else
            let gene_string = re_split g;
                gene_orig_list = list_set gene_string
            in if length gene_orig_list = 0 then []
               else setGene_loop (take 4 g) gene_orig_list []
      | _ \<Rightarrow> [])"

text \<open>
  \<open>getLocus\<close> prints its warnings; the model returns them beside the locus, in the order
  printed.
\<close>

datatype locus_warning =
    InvalidVCall string
  | InconsistentLoci "string list"
  | NonIGTRLocus "string list"

fun getLocus_loop ::
  "string list \<Rightarrow> string list \<Rightarrow> string \<Rightarrow> locus_warning list \<Rightarrow> string \<times> locus_warning list" where
  "getLocus_loop v_call_array [] final_locus ws = (final_locus, ws)"
| "getLocus_loop v_call_array (v_call # rest) final_locus ws =
     (if length final_locus \<noteq> 3 then
        (if length v_call > 3 then getLocus_loop v_call_array rest (take 3 v_call) ws
         else getLocus_loop v_call_array rest final_locus (ws @ [InvalidVCall v_call]))
      else if take 3 v_call \<noteq> final_locus
      then getLocus_loop v_call_array rest final_locus (ws @ [InconsistentLoci v_call_array])
      else getLocus_loop v_call_array rest final_locus ws)"

definition getLocus :: "string list \<Rightarrow> string \<times> locus_warning list" where
  "getLocus v_call_array =
     (let (final_locus, ws) = getLocus_loop v_call_array v_call_array [] []
      in if length final_locus = 3 \<and> take 2 final_locus \<noteq> ''IG'' \<and> take 2 final_locus \<noteq> ''TR''
         then (final_locus, ws @ [NonIGTRLocus v_call_array])
         else (final_locus, ws))"

section \<open>The parser, its mapping service and its repository\<close>

text \<open>
  A JSON document, and a record read back from the repository, is a Python dict with
  string keys: an association list, in insertion order. A column name that the mapping
  service returns is a string or \<open>None\<close>.
\<close>

type_synonym doc = "(string \<times> pyval) list"
type_synonym field = "string option"

text \<open>\<open>f in d\<close> and \<open>d[f]\<close>; \<open>None\<close> is never a key of a document.\<close>

definition key_in :: "field \<Rightarrow> doc \<Rightarrow> bool" where
  "key_in f d = (case f of None \<Rightarrow> False | Some k \<Rightarrow> map_of d k \<noteq> None)"

definition getitem :: "doc \<Rightarrow> field \<Rightarrow> pyerr + pyval" where
  "getitem d f =
     (case f of
        None \<Rightarrow> Inl KeyError
      | Some k \<Rightarrow> (case map_of d k of None \<Rightarrow> Inl KeyError | Some v \<Rightarrow> Inr v))"

text \<open>
  The calls that the code makes on the repository, reads and writes, in the order made.
\<close>

datatype repo_call =
    CallRepositoryGetRepertoireIDs field pyval
  | CallRepositoryGetRepertoires field pyval
  | CallGetRepertoires string pyval
  | CallInsertRepertoire doc field
  | CallUpdateRepertoire field pyval doc
  | CallUpdateField field pyval field pyval

text \<open>The warnings and errors that the code prints (the \<open>Info:\<close> lines are left out).\<close>

datatype msg =
    ErrFileNotInField string
  | ErrNoRepertoireForFile string
  | ErrManyRepertoiresForFile nat string
  | WarnNullableRequiredMissing pyval
  | ErrRequiredMissing pyval string
  | ErrPresetField field
  | ErrNoUniqueRepertoire pyval
  | WarnNoRearrangementFiles
  | ErrExistenceCheckFailed pyval
  | ErrAlreadyExists "pyval list"
  | ErrNoRepertoireIdMapping
  | ErrRepertoireNotFound pyval
  | ErrMoreThanOneRepertoire pyval pyval pyval
  | ErrCannotConfirmUniqueness pyval pyval pyval
  | ErrWriteFailed

text \<open>
  The \<open>Parser\<close> base class, the AIRR mapping and the repository driver are not among the
  sources; the model takes them as the fields of a record \<open>parser\<close> (\<open>self\<close>).
  \<^item> \<open>getMapping\<close> is the mapping lookup \<open>getMapping(key, from_tag, to_tag, map_class)\<close>,
    with \<open>None\<close> for an omitted class, where it returns a column or type name;
    \<open>getMappingFlag\<close> is the same lookup where it returns a flag (\<open>airr_nullable\<close>,
    \<open>airr_is_array\<close>), of any type.
  \<^item> The read calls \<open>repositoryGetRepertoireIDs\<close>, \<open>repositoryGetRepertoires\<close> and
    \<open>getRepertoires\<close> return what the repository holds when the operation starts, and
    \<open>insertRepertoire\<close> and \<open>updateRepertoire\<close> return the identifier or \<open>None\<close> that the
    driver would return.
  \<^item> \<open>getDateTimeNowUTC n\<close> is the clock at its n-th reading within one operation, and
    \<open>py_str\<close> is the builtin \<open>str\<close> on record identifiers.
\<close>

record parser =
  verbose :: bool
  getAIRRTag :: string
  getRepositoryTag :: string
  getiReceptorTag :: string
  getRepertoireClass :: string
  getMapping :: "string \<Rightarrow> string \<Rightarrow> string \<Rightarrow> string option \<Rightarrow> field"
  getMappingFlag :: "string \<Rightarrow> string \<Rightarrow> string \<Rightarrow> string option \<Rightarrow> pyval"
  getRearrangementFileField :: string
  getRepertoireLinkIDField :: string
  getRearrangementCountField :: string
  getDateTimeNowUTC :: "nat \<Rightarrow> pyval"
  py_str :: "pyval \<Rightarrow> string"
  updateOnly :: bool
  repositoryGetRepertoireIDs :: "field \<Rightarrow> pyval \<Rightarrow> pyval list option"
  repositoryGetRepertoires :: "field \<Rightarrow> pyval \<Rightarrow> doc list"
  getRepertoires :: "string \<Rightarrow> pyval \<Rightarrow> doc list"
  insertRepertoire :: "doc \<Rightarrow> field \<Rightarrow> pyval"
  updateRepertoire :: "field \<Rightarrow> pyval \<Rightarrow> doc \<Rightarrow> pyval"

text \<open>
  What an operation yields: the value returned or the exception raised, the repository
  calls made, and the messages printed.
\<close>

record 'a outcome =
  ret :: "pyerr + 'a"
  calls :: "repo_call list"
  msgs :: "msg list"

section \<open>Repertoire linkage (rearrangement.py, getRepertoireInfo)\<close>

text \<open>
  When the file field has no mapping, the first error message names
  \<open>rerrangement_file_field\<close>, which is not defined: the branch raises \<open>NameError\<close>
  before it can return.
\<close>

definition getRepertoireInfo :: "parser \<Rightarrow> string \<Rightarrow> pyval outcome" where
  "getRepertoireInfo p filename =
     (let file_field = getMapping p (getRearrangementFileField p) (getiReceptorTag p)
                         (getRepositoryTag p) None
      in if file_field = None then \<lparr>ret = Inl NameError, calls = [], msgs = []\<rparr>
         else
           let idarray = repositoryGetRepertoireIDs p file_field (PStr filename);
               cs = [CallRepositoryGetRepertoireIDs file_field (PStr filename)]
           in case idarray of
                None \<Rightarrow> \<lparr>ret = Inr PNone, calls = cs, msgs = [ErrFileNotInField filename]\<rparr>
              | Some ids \<Rightarrow>
                  let num_repertoires = length ids
                  in if num_repertoires = 0
                     then \<lparr>ret = Inr PNone, calls = cs, msgs = [ErrNoRepertoireForFile filename]\<rparr>
                     else if num_repertoires > 1
                     then \<lparr>ret = Inr PNone, calls = cs,
                           msgs = [ErrManyRepertoiresForFile num_repertoires filename]\<rparr>
                     else \<lparr>ret = Inr (ids ! 0), calls = cs, msgs = []\<rparr>)"

section \<open>Batch checks (rearrangement.py, checkAIRRRequired and checkIDFields)\<close>

text \<open>
  A data frame: its number of rows and its columns by name, in order. Assigning a
  scalar to a column fills every row with it. Assigning a list needs one value per row;
  a frame without rows takes its rows from a non-empty list, and the columns it had are
  filled with NaN.
\<close>

record dataframe =
  nrows :: nat
  columns :: "(string \<times> pyval list) list"

definition col_in :: "field \<Rightarrow> dataframe \<Rightarrow> bool" where
  "col_in f df = (case f of None \<Rightarrow> False | Some k \<Rightarrow> map_of (columns df) k \<noteq> None)"

definition set_scalar :: "dataframe \<Rightarrow> string \<Rightarrow> pyval \<Rightarrow> dataframe" where
  "set_scalar df k v = df\<lparr>columns := AList.update k (replicate (nrows df) v) (columns df)\<rparr>"

definition set_column :: "dataframe \<Rightarrow> string \<Rightarrow> pyval \<Rightarrow> pyerr + dataframe" where
  "set_column df k v =
     (case v of
        PList vs \<Rightarrow>
          if length vs = nrows df then Inr (df\<lparr>columns := AList.update k vs (columns df)\<rparr>)
          else if nrows df = 0
          then Inr \<lparr>nrows = length vs,
                    columns = AList.update k vs
                                (map (\<lambda>(c, col). (c, replicate (length vs) np_nan)) (columns df))\<rparr>
          else Inl ValueError
      | _ \<Rightarrow> Inr (set_scalar df k v))"

text \<open>
  A row of the mapping table \<open>airr_fields\<close>, by the cells that \<open>checkAIRRRequired\<close> reads:
  \<open>row["airr_required"]\<close>, \<open>row["airr_nullable"]\<close>, \<open>row[self.getAIRRTag()]\<close> and
  \<open>row[self.getRepositoryTag()]\<close>, the last being the name of a column.
\<close>

record airr_row =
  airr_required :: pyval
  airr_nullable :: pyval
  airr_field :: pyval
  repository_field :: string

fun checkAIRRRequired_loop ::
  "dataframe \<Rightarrow> airr_row list \<Rightarrow> msg list \<Rightarrow> bool \<times> dataframe \<times> msg list" where
  "checkAIRRRequired_loop dataframe [] ms = (True, dataframe, ms)"
| "checkAIRRRequired_loop dataframe (row # rest) ms =
     (if py_eq (airr_required row) (PStr ''TRUE'') \<or> py_eq (airr_required row) (PBool True) then
        (if \<not> col_in (Some (repository_field row)) dataframe then
           (if truthy (airr_nullable row)
            then checkAIRRRequired_loop (set_scalar dataframe (repository_field row) np_nan) rest
                   (ms @ [WarnNullableRequiredMissing (airr_field row)])
            else (False, dataframe,
                  ms @ [ErrRequiredMissing (airr_field row) (repository_field row)]))
         else checkAIRRRequired_loop dataframe rest ms)
      else checkAIRRRequired_loop dataframe rest ms)"

definition checkAIRRRequired :: "dataframe \<Rightarrow> airr_row list \<Rightarrow> bool \<times> dataframe \<times> msg list" where
  "checkAIRRRequired dataframe airr_fields = checkAIRRRequired_loop dataframe airr_fields []"

text \<open>One of the three assignments at the end of \<open>checkIDFields\<close>.\<close>

definition set_id_column :: "dataframe \<Rightarrow> field \<Rightarrow> doc \<Rightarrow> pyval \<Rightarrow> pyerr + dataframe" where
  "set_id_column dataframe id_field repertoire repertoire_link_id =
     (case id_field of
        None \<Rightarrow> Inr dataframe
      | Some k \<Rightarrow>
          (case map_of repertoire k of
             Some v \<Rightarrow> set_column dataframe k v
           | None \<Rightarrow> set_column dataframe k repertoire_link_id))"

definition checkIDFields :: "parser \<Rightarrow> dataframe \<Rightarrow> pyval \<Rightarrow> bool outcome \<times> dataframe" where
  "checkIDFields p dataframe repertoire_link_id =
     (let repertoire_link_field = getRepertoireLinkIDField p;
          rep_id_field = getMapping p ''repertoire_id'' (getAIRRTag p) (getRepositoryTag p)
                           (Some (getRepertoireClass p));
          data_id_field = getMapping p ''data_processing_id'' (getAIRRTag p) (getRepositoryTag p)
                           (Some (getRepertoireClass p));
          sample_id_field = getMapping p ''sample_processing_id'' (getAIRRTag p) (getRepositoryTag p)
                           (Some (getRepertoireClass p))
      in if col_in rep_id_field dataframe
         then (\<lparr>ret = Inr False, calls = [], msgs = [ErrPresetField rep_id_field]\<rparr>, dataframe)
         else if col_in data_id_field dataframe
         then (\<lparr>ret = Inr False, calls = [], msgs = [ErrPresetField data_id_field]\<rparr>, dataframe)
         else if col_in sample_id_field dataframe
         then (\<lparr>ret = Inr False, calls = [], msgs = [ErrPresetField sample_id_field]\<rparr>, dataframe)
         else
           let repertoires = getRepertoires p repertoire_link_field repertoire_link_id;
               cs = [CallGetRepertoires repertoire_link_field repertoire_link_id]
           in if length repertoires \<noteq> 1
              then (\<lparr>ret = Inr False, calls = cs,
                     msgs = [ErrNoUniqueRepertoire repertoire_link_id]\<rparr>, dataframe)
              else
                let repertoire = repertoires ! 0
                in case set_id_column dataframe rep_id_field repertoire repertoire_link_id of
                     Inl e \<Rightarrow> (\<lparr>ret = Inl e, calls = cs, msgs = []\<rparr>, dataframe)
                   | Inr df1 \<Rightarrow>
                  (case set_id_column df1 data_id_field repertoire repertoire_link_id of
                     Inl e \<Rightarrow> (\<lparr>ret = Inl e, calls = cs, msgs = []\<rparr>, df1)
                   | Inr df2 \<Rightarrow>
                  (case set_id_column df2 sample_id_field repertoire repertoire_link_id of
                     Inl e \<Rightarrow> (\<lparr>ret = Inl e, calls = cs, msgs = []\<rparr>, df2)
                   | Inr df3 \<Rightarrow> (\<lparr>ret = Inr True, calls = cs, msgs = []\<rparr>, df3))))"

section \<open>The tests of the required-field check, by name\<close>

text \<open>
  The two tests that \<open>checkAIRRRequired\<close> makes on a mapping row: the field is required
  (\<open>row["airr_required"] == "TRUE" or row["airr_required"] == True\<close>), and the flag
  \<open>airr_nullable\<close> is true as Python tests it (\<open>if row["airr_nullable"]\<close>). The second
  is the code's test, not the declaration: every non-empty string passes it, the
  string \<open>FALSE\<close> too, and so does a NaN.
\<close>

definition required_row :: "airr_row \<Rightarrow> bool" where
  "required_row row = (py_eq (airr_required row) (PStr ''TRUE'') \<or> py_eq (airr_required row) (PBool True))"

definition nullable_row :: "airr_row \<Rightarrow> bool" where
  "nullable_row row = truthy (airr_nullable row)"

section \<open>Type check of a repertoire field (repertoire.py, validAIRRFieldType)\<close>

text \<open>
  The \<open>isinstance\<close> tests. A Python bool is an int, and an int passes for a number.
\<close>

fun is_str :: "pyval \<Rightarrow> bool" where
  "is_str (PStr s) = True"
| "is_str _ = False"

fun is_bool :: "pyval \<Rightarrow> bool" where
  "is_bool (PBool b) = True"
| "is_bool _ = False"

fun is_int :: "pyval \<Rightarrow> bool" where
  "is_int (PBool b) = True"
| "is_int (PInt i) = True"
| "is_int _ = False"

fun is_number :: "pyval \<Rightarrow> bool" where
  "is_number (PBool b) = True"
| "is_number (PInt i) = True"
| "is_number (PFloat r) = True"
| "is_number (PNaN n) = True"
| "is_number _ = False"

fun validAIRRFieldType :: "parser \<Rightarrow> string \<Rightarrow> pyval \<Rightarrow> bool \<Rightarrow> bool" where
  "validAIRRFieldType p key value strict =
     (let field_type = getMapping p key (getAIRRTag p) ''airr_type'' (Some (getRepertoireClass p));
          field_nullable = getMappingFlag p key (getAIRRTag p) ''airr_nullable''
                             (Some (getRepertoireClass p));
          is_array = getMappingFlag p key (getAIRRTag p) ''airr_is_array''
                             (Some (getRepertoireClass p))
      in if field_type = None then (if strict then False else True)
         else if \<not> is_list value \<and> isnull value \<and>
                 (py_eq field_nullable PNone \<or> truthy field_nullable) then True
         else if is_str value \<and> field_type = Some ''string'' then True
         else if is_bool value \<and> field_type = Some ''boolean'' then True
         else if is_int value \<and> field_type = Some ''integer'' then True
         else if is_number value \<and> field_type = Some ''number'' then True
         else (case value of
                 PList elements \<Rightarrow>
                   truthy is_array \<and>
                   list_all (\<lambda>element. validAIRRFieldType p key element strict) elements
               | _ \<Rightarrow> False))"

section \<open>Insert or update of a repertoire (repertoire.py, repositoryInsertRepertoire)\<close>

text \<open>
  The value of an identifier field of the incoming document: \<open>None\<close> when the key is
  absent, and when the value is the empty string.
\<close>

definition incoming_id :: "doc \<Rightarrow> field \<Rightarrow> pyval" where
  "incoming_id json_document id_field =
     (if key_in id_field json_document then
        (case getitem json_document id_field of
           Inr v \<Rightarrow> if py_eq v (PStr []) then PNone else v
         | Inl e \<Rightarrow> PNone)
      else PNone)"

text \<open>
  Update mode, more than one repertoire with the \<open>repertoire_id\<close>: the loop over
  \<open>rep_array\<close> that looks for the record with the incoming triple. It yields
  \<open>Inr (Some v)\<close> when it runs to its end with \<open>link_repository_value = v\<close>,
  \<open>Inr None\<close> when it returns \<open>None\<close> at a second match, and \<open>Inl KeyError\<close> when a
  record lacks a field that the loop reads.
\<close>

fun update_target_loop ::
  "field \<Rightarrow> field \<Rightarrow> field \<Rightarrow> field \<Rightarrow> pyval \<Rightarrow> pyval \<Rightarrow> pyval \<Rightarrow> doc list \<Rightarrow> pyval
     \<Rightarrow> pyerr + pyval option" where
  "update_target_loop link_repository_field rep_id_field data_id_field sample_id_field
     repertoire_id data_processing_id sample_processing_id [] link_repository_value =
       Inr (Some link_repository_value)"
| "update_target_loop link_repository_field rep_id_field data_id_field sample_id_field
     repertoire_id data_processing_id sample_processing_id (rep # rest) link_repository_value =
     (case getitem rep sample_id_field of
        Inl e \<Rightarrow> Inl e
      | Inr s \<Rightarrow>
          if \<not> py_eq s sample_processing_id
          then update_target_loop link_repository_field rep_id_field data_id_field sample_id_field
                 repertoire_id data_processing_id sample_processing_id rest link_repository_value
          else
            (case getitem rep data_id_field of
               Inl e \<Rightarrow> Inl e
             | Inr d \<Rightarrow>
                 if \<not> py_eq d data_processing_id
                 then update_target_loop link_repository_field rep_id_field data_id_field
                        sample_id_field repertoire_id data_processing_id sample_processing_id rest
                        link_repository_value
                 else
                   (case getitem rep rep_id_field of
                      Inl e \<Rightarrow> Inl e
                    | Inr r \<Rightarrow>
                        if \<not> py_eq r repertoire_id
                        then update_target_loop link_repository_field rep_id_field data_id_field
                               sample_id_field repertoire_id data_processing_id
                               sample_processing_id rest link_repository_value
                        else if py_eq link_repository_value PNone
                        then (case getitem rep link_repository_field of
                                Inl e \<Rightarrow> Inl e
                              | Inr l \<Rightarrow>
                                  update_target_loop link_repository_field rep_id_field
                                    data_id_field sample_id_field repertoire_id data_processing_id
                                    sample_processing_id rest l)
                        else Inr None)))"

text \<open>
  The update branch, from \<open>if self.repository.updateOnly():\<close> to its \<open>return\<close>;
  \<open>cs\<close> holds the calls made so far.
\<close>

definition update_branch ::
  "parser \<Rightarrow> doc \<Rightarrow> field \<Rightarrow> field \<Rightarrow> field \<Rightarrow> field \<Rightarrow> pyval \<Rightarrow> pyval \<Rightarrow> pyval
     \<Rightarrow> doc list \<Rightarrow> repo_call list \<Rightarrow> msg list \<Rightarrow> pyval outcome" where
  "update_branch p json_document link_repository_field rep_id_field data_id_field sample_id_field
     repertoire_id data_processing_id sample_processing_id rep_array cs ms =
     (let num_repertoires = length rep_array;
          target =
            (if num_repertoires = 0 then Inr None
             else if num_repertoires = 1 then
               (case getitem (rep_array ! 0) link_repository_field of
                  Inl e \<Rightarrow> Inl e
                | Inr l \<Rightarrow> Inr (Some l))
             else update_target_loop link_repository_field rep_id_field data_id_field
                    sample_id_field repertoire_id data_processing_id sample_processing_id
                    rep_array PNone)
      in case target of
           Inl e \<Rightarrow> \<lparr>ret = Inl e, calls = cs, msgs = ms\<rparr>
         | Inr None \<Rightarrow>
             \<lparr>ret = Inr PNone, calls = cs,
              msgs = ms @ [if num_repertoires = 0 then ErrRepertoireNotFound repertoire_id
                           else ErrMoreThanOneRepertoire repertoire_id sample_processing_id
                                  data_processing_id]\<rparr>
         | Inr (Some link_repository_value) \<Rightarrow>
             let json_document' = AList.update ''ir_updated_at'' (getDateTimeNowUTC p 0) json_document;
                 record_id = updateRepertoire p link_repository_field link_repository_value
                               json_document'
             in \<lparr>ret = Inr record_id,
                 calls = cs @ [CallUpdateRepertoire link_repository_field link_repository_value
                                 json_document'],
                 msgs = ms\<rparr>)"

text \<open>
  Insert mode: one test of the loop over \<open>rep_array\<close>, on the data or the sample
  processing identifier, and the loop itself, which carries the flag \<open>duplicate\<close>.
\<close>

definition differs_on :: "field \<Rightarrow> pyval \<Rightarrow> doc \<Rightarrow> bool" where
  "differs_on id_field incoming rep =
     (key_in id_field rep \<and>
      (case getitem rep id_field of
         Inr v \<Rightarrow> \<not> py_eq v incoming \<and> \<not> py_eq v (PStr []) \<and>
                  incoming \<noteq> PNone \<and> \<not> py_eq incoming (PStr [])
       | Inl e \<Rightarrow> False))"

fun duplicate_loop :: "field \<Rightarrow> field \<Rightarrow> pyval \<Rightarrow> pyval \<Rightarrow> doc list \<Rightarrow> bool \<Rightarrow> bool" where
  "duplicate_loop data_id_field sample_id_field data_processing_id sample_processing_id []
     duplicate = duplicate"
| "duplicate_loop data_id_field sample_id_field data_processing_id sample_processing_id
     (rep # rest) duplicate =
     (if differs_on data_id_field data_processing_id rep
      then duplicate_loop data_id_field sample_id_field data_processing_id sample_processing_id
             rest False
      else if differs_on sample_id_field sample_processing_id rep
      then duplicate_loop data_id_field sample_id_field data_processing_id sample_processing_id
             rest False
      else duplicate_loop data_id_field sample_id_field data_processing_id sample_processing_id
             rest duplicate)"

text \<open>
  The three write-backs after a successful insert, for the identifiers that were
  \<open>None\<close>.
\<close>

definition write_back :: "parser \<Rightarrow> field \<Rightarrow> pyval \<Rightarrow> field \<Rightarrow> pyval \<Rightarrow> repo_call list" where
  "write_back p link_repository_field record_id id_field incoming =
     (if incoming = PNone
      then [CallUpdateField link_repository_field record_id id_field (PStr (py_str p record_id))]
      else [])"

text \<open>
  The insert branch. The message of the duplicate case reads the three identifier
  fields of \<open>rep\<close>, the last record of the loop, and raises \<open>KeyError\<close> when one is
  not there. When the count field has no mapping, the warning names \<open>repository_tag\<close>,
  which is not defined in this function: \<open>NameError\<close>.
\<close>

definition insert_branch ::
  "parser \<Rightarrow> doc \<Rightarrow> field \<Rightarrow> field \<Rightarrow> field \<Rightarrow> field \<Rightarrow> pyval \<Rightarrow> pyval \<Rightarrow> pyval
     \<Rightarrow> doc list \<Rightarrow> repo_call list \<Rightarrow> msg list \<Rightarrow> pyval outcome" where
  "insert_branch p json_document link_repository_field rep_id_field data_id_field sample_id_field
     repertoire_id data_processing_id sample_processing_id rep_array cs ms =
     (let num_repertoires = length rep_array;
          duplicate =
            (num_repertoires \<noteq> 0 \<and>
             duplicate_loop data_id_field sample_id_field data_processing_id sample_processing_id
               rep_array True)
      in if duplicate then
           (let rep = last rep_array;
                ms' = ms @ [ErrCannotConfirmUniqueness repertoire_id data_processing_id
                              sample_processing_id]
            in case getitem rep rep_id_field of
                 Inl e \<Rightarrow> \<lparr>ret = Inl e, calls = cs, msgs = ms'\<rparr>
               | Inr r \<Rightarrow>
              (case getitem rep data_id_field of
                 Inl e \<Rightarrow> \<lparr>ret = Inl e, calls = cs, msgs = ms'\<rparr>
               | Inr d \<Rightarrow>
              (case getitem rep sample_id_field of
                 Inl e \<Rightarrow> \<lparr>ret = Inl e, calls = cs, msgs = ms'\<rparr>
               | Inr s \<Rightarrow> \<lparr>ret = Inr PNone, calls = cs, msgs = ms'\<rparr>)))
         else
           let doc1 = AList.update ''ir_updated_at'' (getDateTimeNowUTC p 0) json_document;
               doc2 = AList.update ''ir_created_at'' (getDateTimeNowUTC p 1) doc1;
               rearrangement_count_field = getRearrangementCountField p;
               count_field = getMapping p rearrangement_count_field (getiReceptorTag p)
                               (getRepositoryTag p) None
           in case count_field of
                None \<Rightarrow> \<lparr>ret = Inl NameError, calls = cs, msgs = ms\<rparr>
              | Some c \<Rightarrow>
                  let doc3 = AList.update c (PInt 0) doc2;
                      record_id = insertRepertoire p doc3 link_repository_field;
                      cs' = cs @ [CallInsertRepertoire doc3 link_repository_field]
                  in if record_id = PNone
                     then \<lparr>ret = Inr PNone, calls = cs', msgs = ms @ [ErrWriteFailed]\<rparr>
                     else
                       \<lparr>ret = Inr record_id,
                        calls = cs'
                          @ write_back p link_repository_field record_id rep_id_field repertoire_id
                          @ write_back p link_repository_field record_id data_id_field
                              data_processing_id
                          @ write_back p link_repository_field record_id sample_id_field
                              sample_processing_id,
                        msgs = ms\<rparr>)"

text \<open>
  The part of the function after the check of the rearrangement files: the three
  identifier fields, the records with the incoming \<open>repertoire_id\<close>, and the branch for
  the mode.
\<close>

definition resolve_and_write ::
  "parser \<Rightarrow> doc \<Rightarrow> field \<Rightarrow> repo_call list \<Rightarrow> msg list \<Rightarrow> pyval outcome" where
  "resolve_and_write p json_document link_repository_field cs ms =
     (let rep_id_field = getMapping p ''repertoire_id'' (getAIRRTag p) (getRepositoryTag p)
                           (Some (getRepertoireClass p))
      in if rep_id_field = None
         then \<lparr>ret = Inr PNone, calls = cs, msgs = ms @ [ErrNoRepertoireIdMapping]\<rparr>
         else
           let data_id_field = getMapping p ''data_processing_id'' (getAIRRTag p)
                                 (getRepositoryTag p) (Some (getRepertoireClass p));
               sample_id_field = getMapping p ''sample_processing_id'' (getAIRRTag p)
                                   (getRepositoryTag p) (Some (getRepertoireClass p));
               repertoire_id = incoming_id json_document rep_id_field;
               data_processing_id = incoming_id json_document data_id_field;
               sample_processing_id = incoming_id json_document sample_id_field;
               rep_array = repositoryGetRepertoires p rep_id_field repertoire_id;
               cs' = cs @ [CallRepositoryGetRepertoires rep_id_field repertoire_id]
           in if updateOnly p
              then update_branch p json_document link_repository_field rep_id_field data_id_field
                     sample_id_field repertoire_id data_processing_id sample_processing_id
                     rep_array cs' ms
              else insert_branch p json_document link_repository_field rep_id_field data_id_field
                     sample_id_field repertoire_id data_processing_id sample_processing_id
                     rep_array cs' ms)"

text \<open>
  The whole function. The lookups of \<open>study_id\<close> and \<open>sample_id\<close> only feed the
  messages and cannot fail; they are left out.
\<close>

definition repositoryInsertRepertoire :: "parser \<Rightarrow> doc \<Rightarrow> pyval outcome" where
  "repositoryInsertRepertoire p json_document =
     (let rearrangement_file_field = getRearrangementFileField p;
          file_repository_field = getMapping p rearrangement_file_field (getiReceptorTag p)
                                    (getRepositoryTag p) None;
          link_field = getRepertoireLinkIDField p;
          link_repository_field = getMapping p link_field (getiReceptorTag p)
                                    (getRepositoryTag p) None
      in case getitem json_document file_repository_field of
           Inl e \<Rightarrow> \<lparr>ret = Inl e, calls = [], msgs = []\<rparr>
         | Inr file_names \<Rightarrow>
             let no_files = (file_names = PNone \<or> py_eq file_names (PStr []));
                 idarray = (if no_files then Some []
                            else repositoryGetRepertoireIDs p file_repository_field file_names);
                 cs = (if no_files then []
                       else [CallRepositoryGetRepertoireIDs file_repository_field file_names]);
                 ms = (if no_files then [WarnNoRearrangementFiles] else [])
             in case idarray of
                  None \<Rightarrow> \<lparr>ret = Inr PNone, calls = cs,
                            msgs = ms @ [ErrExistenceCheckFailed file_names]\<rparr>
                | Some ids \<Rightarrow>
                    let num_repertoires = length ids
                    in if \<not> updateOnly p \<and> num_repertoires \<noteq> 0
                       then \<lparr>ret = Inr PNone, calls = cs, msgs = ms @ [ErrAlreadyExists ids]\<rparr>
                       else resolve_and_write p json_document link_repository_field cs ms)"

section \<open>The stored repertoire records under the write calls\<close>

text \<open>
  Modelled from the spec: the effect of the repository's write calls on the stored
  repertoire records; the driver behind \<open>insertRepertoire\<close>, \<open>updateField\<close> and
  \<open>updateRepertoire\<close> is not among the sources. By sections 4.5 and 6 of the
  specification, \<open>insertRepertoire(doc, link_field)\<close> commits the document as a new record
  that is then reached through the link field and the identifier returned;
  \<open>updateField(key_field, key_value, field, value)\<close> writes \<open>value\<close> into \<open>field\<close> of
  the records whose \<open>key_field\<close> holds \<open>key_value\<close>; \<open>updateRepertoire(link_field,
  link_value, doc)\<close> writes the fields of \<open>doc\<close> into the records whose link field holds
  \<open>link_value\<close>. The reads change nothing, and a failed insert commits nothing.
\<close>

definition holds :: "doc \<Rightarrow> field \<Rightarrow> pyval \<Rightarrow> bool" where
  "holds d key_field key_value = (getitem d key_field = Inr key_value)"

definition put :: "field \<Rightarrow> pyval \<Rightarrow> doc \<Rightarrow> doc" where
  "put f v d = (case f of None \<Rightarrow> d | Some k \<Rightarrow> AList.update k v d)"

text \<open>
  Modelled from the spec: the stored records after one call, and after a list of calls
  in order. The identifier of a new record is the one that \<open>insertRepertoire\<close> returns.
\<close>

fun commit_call :: "parser \<Rightarrow> repo_call \<Rightarrow> doc list \<Rightarrow> doc list" where
  "commit_call p (CallInsertRepertoire d link_field) store =
     (if insertRepertoire p d link_field = PNone then store
      else store @ [put link_field (insertRepertoire p d link_field) d])"
| "commit_call p (CallUpdateField key_field key_value f v) store =
     map (\<lambda>d. if holds d key_field key_value then put f v d else d) store"
| "commit_call p (CallUpdateRepertoire link_field link_value new) store =
     map (\<lambda>d. if holds d link_field link_value then AList.updates (map fst new) (map snd new) d
               else d) store"
| "commit_call p _ store = store"

fun commit_calls :: "parser \<Rightarrow> repo_call list \<Rightarrow> doc list \<Rightarrow> doc list" where
  "commit_calls p [] store = store"
| "commit_calls p (c # cs) store = commit_calls p cs (commit_call p c store)"

text \<open>
  Modelled from the spec: what one write-back call of the insert branch does to one
  stored record under the model above. When the incoming identifier was \<open>None\<close> and
  the record holds the new identifier in its link field, the identifier field is set.
\<close>

definition written_back :: "string \<Rightarrow> pyval \<Rightarrow> string \<Rightarrow> pyval \<Rightarrow> pyval \<Rightarrow> doc \<Rightarrow> doc" where
  "written_back l record_id f v incoming d =
     (if incoming = PNone \<and> holds d (Some l) record_id then put (Some f) v d else d)"

section \<open>Kinds of repository calls, and identifier fields that are filled\<close>

fun is_file_query :: "repo_call \<Rightarrow> bool" where
  "is_file_query (CallRepositoryGetRepertoireIDs f v) = True"
| "is_file_query _ = False"

fun is_write :: "repo_call \<Rightarrow> bool" where
  "is_write (CallInsertRepertoire d f) = True"
| "is_write (CallUpdateRepertoire f v d) = True"
| "is_write (CallUpdateField kf kv f v) = True"
| "is_write _ = False"

fun is_insert :: "repo_call \<Rightarrow> bool" where
  "is_insert (CallInsertRepertoire d f) = True"
| "is_insert _ = False"

text \<open>A record has a non-empty value in a field: the key is there, with a value that is
  neither \<open>None\<close> nor the empty string.\<close>

definition nonempty_id :: "doc \<Rightarrow> field \<Rightarrow> bool" where
  "nonempty_id d f = (case getitem d f of Inr v \<Rightarrow> v \<noteq> PNone \<and> v \<noteq> PStr [] | Inl e \<Rightarrow> False)"

section \<open>A small repository for the examples\<close>

text \<open>
  A mapping with the six fields that the operations look up, a repository without
  records, and a driver that gives every new record the identifier \<open>PObj 7\<close>. The
  examples below change single fields of it.
\<close>

definition ex_mapping :: "string \<Rightarrow> string \<Rightarrow> string \<Rightarrow> string option \<Rightarrow> field" where
  "ex_mapping key from_tag to_tag map_class =
     (if to_tag = ''repo'' then
        map_of [(''ir_file'', ''files''), (''ir_link'', ''_id''), (''ir_count'', ''count''),
                (''repertoire_id'', ''repertoire_id''),
                (''data_processing_id'', ''data_processing_id''),
                (''sample_processing_id'', ''sample_processing_id'')] key
      else if to_tag = ''airr_type'' then map_of [(''repertoire_id'', ''string'')] key
      else None)"

definition ex_parser :: parser where
  "ex_parser =
     \<lparr>verbose = False, getAIRRTag = ''airr'', getRepositoryTag = ''repo'',
      getiReceptorTag = ''ir_id'', getRepertoireClass = ''Repertoire'',
      getMapping = ex_mapping, getMappingFlag = (\<lambda>key from_tag to_tag map_class. PNone),
      getRearrangementFileField = ''ir_file'', getRepertoireLinkIDField = ''ir_link'',
      getRearrangementCountField = ''ir_count'',
      getDateTimeNowUTC = (\<lambda>n. PStr ''now''), py_str = (\<lambda>v. ''7''),
      updateOnly = False,
      repositoryGetRepertoireIDs = (\<lambda>f v. Some []),
      repositoryGetRepertoires = (\<lambda>f v. []),
      getRepertoires = (\<lambda>f v. []),
      insertRepertoire = (\<lambda>d f. PObj 7),
      updateRepertoire = (\<lambda>f v d. PObj 7)\<rparr>"

text \<open>Three files: one with no repertoire, one with a single repertoire, one with two.\<close>

definition ex_ids :: "field \<Rightarrow> pyval \<Rightarrow> pyval list option" where
  "ex_ids f v =
     (if v = PStr ''one.tsv'' then Some [PObj 7]
      else if v = PStr ''two.tsv'' then Some [PObj 7, PObj 8]
      else Some [])"

text \<open>A batch of two rows with a sequence column, and one that already has a linkage column.\<close>

definition ex_frame :: dataframe where
  "ex_frame = \<lparr>nrows = 2, columns = [(''sequence'', [PStr ''ACGT'', PStr ''TTGA''])]\<rparr>"

definition ex_frame_preset :: dataframe where
  "ex_frame_preset =
     \<lparr>nrows = 2, columns = [(''sequence'', [PStr ''ACGT'', PStr ''TTGA'']),
                            (''data_processing_id'', [PStr ''D1'', PStr ''D1''])]\<rparr>"

text \<open>
  Mapping rows: a required field that the batch has, a required nullable field that it
  lacks, and a required field that is not nullable and that it lacks; the last one
  again with its two flags as the strings \<open>TRUE\<close> and \<open>FALSE\<close>, the form in which
  \<open>checkAIRRRequired\<close> accepts \<open>airr_required\<close>.
\<close>

definition row_sequence :: airr_row where
  "row_sequence = \<lparr>airr_required = PBool True, airr_nullable = PBool False,
                   airr_field = PStr ''sequence'', repository_field = ''sequence''\<rparr>"

definition row_rev_comp :: airr_row where
  "row_rev_comp = \<lparr>airr_required = PStr ''TRUE'', airr_nullable = PBool True,
                   airr_field = PStr ''rev_comp'', repository_field = ''rev_comp''\<rparr>"

definition row_v_call :: airr_row where
  "row_v_call = \<lparr>airr_required = PBool True, airr_nullable = PBool False,
                 airr_field = PStr ''v_call'', repository_field = ''v_call''\<rparr>"

definition row_v_call_strings :: airr_row where
  "row_v_call_strings = \<lparr>airr_required = PStr ''TRUE'', airr_nullable = PStr ''FALSE'',
                         airr_field = PStr ''v_call'', repository_field = ''v_call''\<rparr>"

section \<open>Documents and records for the examples\<close>

text \<open>Incoming documents: one without file names, one for a file that a repertoire
  already has, and three with the \<open>repertoire_id\<close> R1.\<close>

definition ex_doc_no_files :: doc where
  "ex_doc_no_files = [(''files'', PStr ''''), (''repertoire_id'', PStr ''R9'')]"

definition ex_doc_one :: doc where
  "ex_doc_one = [(''files'', PStr ''one.tsv''), (''repertoire_id'', PStr ''R9'')]"

definition ex_doc_R1 :: doc where
  "ex_doc_R1 = [(''files'', PStr ''a.tsv''), (''repertoire_id'', PStr ''R1'')]"

definition ex_doc_R1_D2 :: doc where
  "ex_doc_R1_D2 = [(''files'', PStr ''a.tsv''), (''repertoire_id'', PStr ''R1''),
                   (''data_processing_id'', PStr ''D2'')]"

definition ex_doc_R1_D3_S1 :: doc where
  "ex_doc_R1_D3_S1 = [(''files'', PStr ''a.tsv''), (''repertoire_id'', PStr ''R1''),
                      (''data_processing_id'', PStr ''D3''),
                      (''sample_processing_id'', PStr ''S1'')]"

text \<open>Stored records with the \<open>repertoire_id\<close> R1; the first has no
  \<open>sample_processing_id\<close>.\<close>

definition rec_R1_D1 :: doc where
  "rec_R1_D1 = [(''_id'', PObj 1), (''repertoire_id'', PStr ''R1''),
                (''data_processing_id'', PStr ''D1'')]"

definition rec_R1_D1_S1 :: doc where
  "rec_R1_D1_S1 = [(''_id'', PObj 1), (''repertoire_id'', PStr ''R1''),
                   (''data_processing_id'', PStr ''D1''),
                   (''sample_processing_id'', PStr ''S1'')]"

definition rec_R1_D2_S1 :: doc where
  "rec_R1_D2_S1 = [(''_id'', PObj 2), (''repertoire_id'', PStr ''R1''),
                   (''data_processing_id'', PStr ''D2''),
                   (''sample_processing_id'', PStr ''S1'')]"

section \<open>Properties of the gene-call decomposition\<close>

lemma re_split_nonempty: "re_split s \<noteq> []"
  by (induction s) (auto split: list.splits)

lemma setGene_loop_acc:
  "setGene_loop l xs acc =
     acc @ concat (map (\<lambda>t. if is_locus_token t then [t]
                              else if CHR ''-'' \<in> set t then [l @ t] else []) xs)"
  by (induction xs arbitrary: acc) (simp_all add: is_locus_token_def)

lemma setGene_str:
  "setGene ls (PStr g) =
     (if g = [] \<or> ls (re_split g) = [] then []
      else concat (map (\<lambda>t. if is_locus_token t then [t]
                              else if CHR ''-'' \<in> set t then [take 4 g @ t] else [])
                       (ls (re_split g))))"
  by (simp add: setGene_def setGene_loop_acc Let_def)

lemma empty_not_kept: "\<not> is_locus_token [] \<and> CHR ''-'' \<notin> set []"
  by (simp add: is_locus_token_def startswith_def)

lemma length_concat_keep:
  "distinct xs \<Longrightarrow>
   length (concat (map (\<lambda>t. if P t then [f t] else if Q t then [h t] else []) xs))
     = card {t \<in> set xs. P t \<or> Q t}"
proof (induction xs)
  case Nil
  then show ?case by simp
next
  case (Cons x xs)
  let ?K = "{t \<in> set xs. P t \<or> Q t}"
  have fin: "finite ?K" by simp
  have notin: "x \<notin> ?K" using Cons.prems by simp
  have ih: "length (concat (map (\<lambda>t. if P t then [f t] else if Q t then [h t] else []) xs)) = card ?K"
    using Cons by simp
  show ?case
  proof (cases "P x \<or> Q x")
    case True
    then have "{t \<in> set (x # xs). P t \<or> Q t} = insert x ?K" by auto
    then have "card {t \<in> set (x # xs). P t \<or> Q t} = Suc (card ?K)"
      using fin notin by simp
    then show ?thesis using True ih by auto
  next
    case False
    then have "{t \<in> set (x # xs). P t \<or> Q t} = ?K" by auto
    then show ?thesis using False ih by simp
  qed
qed

lemma set_concat_keep:
  "set (concat (map (\<lambda>t. if P t then [t] else if Q t then [h t] else []) xs))
     = {t \<in> set xs. P t} \<union> {h t |t. t \<in> set xs \<and> \<not> P t \<and> Q t}"
  by (induction xs) auto

lemma set_order_remdups: "set_order remdups"
  by (simp add: set_order_def)

text \<open>
  Claim C5. For a string \<open>g\<close>, the elements of the call array \<open>setGene g\<close> are exactly the
  tokens of \<open>g\<close> (cut at comma, space and pipe) that start with IG or TR, and the first
  four characters of \<open>g\<close> followed by a token that does not start so and contains a
  hyphen. The tokens enter deduplicated: the array has one element for each distinct
  token that is kept. Every other token is dropped, so a string none of whose tokens
  starts with IG or TR or contains a hyphen gives the empty array; an input that is not
  a string, or the empty string, gives the empty list.
\<close>

theorem setGene_call_array:
  assumes "set_order list_set"
  shows "set (setGene list_set (PStr g)) =
           {t \<in> set (re_split g). is_locus_token t} \<union>
           {take 4 g @ t |t. t \<in> set (re_split g) \<and> \<not> is_locus_token t \<and> CHR ''-'' \<in> set t}
         \<and> length (setGene list_set (PStr g)) =
           card {t \<in> set (re_split g). is_locus_token t \<or> CHR ''-'' \<in> set t}
         \<and> ((\<forall>t \<in> set (re_split g). \<not> is_locus_token t \<and> CHR ''-'' \<notin> set t) \<longrightarrow>
           setGene list_set (PStr g) = [])
         \<and> ((\<forall>s. gene \<noteq> PStr s) \<or> gene = PStr [] \<longrightarrow> setGene list_set gene = [])"
proof -
  have d: "distinct (list_set (re_split g))" and s: "set (list_set (re_split g)) = set (re_split g)"
    using assms by (simp_all add: set_order_def)
  have ne: "list_set (re_split g) \<noteq> []"
    using s re_split_nonempty[of g] by (metis set_empty)
  have elems: "set (setGene list_set (PStr g)) =
           {t \<in> set (re_split g). is_locus_token t} \<union>
           {take 4 g @ t |t. t \<in> set (re_split g) \<and> \<not> is_locus_token t \<and> CHR ''-'' \<in> set t}"
  proof (cases "g = []")
    case True
    then show ?thesis using empty_not_kept by (simp add: setGene_str)
  next
    case False
    then show ?thesis using ne by (simp add: setGene_str set_concat_keep s del: set_concat)
  qed
  have count: "length (setGene list_set (PStr g)) =
           card {t \<in> set (re_split g). is_locus_token t \<or> CHR ''-'' \<in> set t}"
  proof (cases "g = []")
    case True
    then show ?thesis using empty_not_kept by (simp add: setGene_str)
  next
    case False
    then show ?thesis using ne length_concat_keep[OF d] by (simp add: setGene_str s)
  qed
  have dropped: "(\<forall>t \<in> set (re_split g). \<not> is_locus_token t \<and> CHR ''-'' \<notin> set t) \<longrightarrow>
           setGene list_set (PStr g) = []"
    using s by (auto simp add: setGene_str)
  have nonstring: "(\<forall>s. gene \<noteq> PStr s) \<or> gene = PStr [] \<longrightarrow> setGene list_set gene = []"
    by (cases gene) (auto simp add: setGene_def)
  show ?thesis using elems count dropped nonstring by blast
qed

text \<open>The theorem at the gene call \<open>IGHV3-23*01,3-23D x\<close> and at the number 3.\<close>

theorem setGene_call_array_witness:
  "set_order remdups
   \<and> set (setGene remdups (PStr ''IGHV3-23*01,3-23D x'')) = {''IGHV3-23*01'', ''IGHV3-23D''}
   \<and> length (setGene remdups (PStr ''IGHV3-23*01,3-23D x'')) = 2
   \<and> setGene remdups (PInt 3) = []"
proof -
  have toks: "re_split ''IGHV3-23*01,3-23D x'' = [''IGHV3-23*01'', ''3-23D'', ''x'']"
    by (simp add: is_delim_def)
  have k1: "{t \<in> set [''IGHV3-23*01'', ''3-23D'', ''x'']. is_locus_token t} = {''IGHV3-23*01''}"
    by (auto simp add: is_locus_token_def startswith_def)
  have k2: "{take 4 ''IGHV3-23*01,3-23D x'' @ t |t.
              t \<in> set [''IGHV3-23*01'', ''3-23D'', ''x''] \<and> \<not> is_locus_token t \<and> CHR ''-'' \<in> set t}
            = {''IGHV3-23D''}"
    by (auto simp add: is_locus_token_def startswith_def)
  have k3: "{t \<in> set [''IGHV3-23*01'', ''3-23D'', ''x'']. is_locus_token t \<or> CHR ''-'' \<in> set t}
            = {''IGHV3-23*01'', ''3-23D''}"
    by (auto simp add: is_locus_token_def startswith_def)
  show ?thesis
    using setGene_call_array[OF set_order_remdups, of "''IGHV3-23*01,3-23D x''" "PInt 3"]
    by (simp only: toks k1 k2 k3 set_order_remdups) auto
qed

text \<open>The examples of the specification: both alleles are kept, a dropped prefix is put back.\<close>

lemma setGene_two_alleles:
  "setGene remdups (PStr ''IGHV3-23*01 IGHV3-23*02'') = [''IGHV3-23*01'', ''IGHV3-23*02'']"
  by (simp add: setGene_def is_delim_def startswith_def)

lemma setGene_restores_prefix:
  "setGene remdups (PStr ''IGHV3-23|3-23D'') = [''IGHV3-23'', ''IGHV3-23D'']"
  by (simp add: setGene_def is_delim_def startswith_def)

section \<open>Properties of the locus derivation\<close>

lemma getLocus_loop_established:
  "length fl = 3 \<Longrightarrow>
   getLocus_loop a xs fl ws = (fl, ws @ map (\<lambda>w. InconsistentLoci a) (filter (\<lambda>w. take 3 w \<noteq> fl) xs))"
  by (induction xs arbitrary: ws) simp_all

lemma getLocus_loop_searching:
  "length fl \<noteq> 3 \<Longrightarrow>
   getLocus_loop a xs fl ws =
     (case dropWhile (\<lambda>v. \<not> 3 < length v) xs of
        [] \<Rightarrow> (fl, ws @ map InvalidVCall xs)
      | v # rest \<Rightarrow>
          (take 3 v,
           ws @ map InvalidVCall (takeWhile (\<lambda>v. \<not> 3 < length v) xs)
              @ map (\<lambda>w. InconsistentLoci a) (filter (\<lambda>w. take 3 w \<noteq> take 3 v) rest)))"
proof (induction xs arbitrary: ws)
  case Nil
  then show ?case by simp
next
  case (Cons x xs)
  show ?case
  proof (cases "3 < length x")
    case True
    then have "length (take 3 x) = 3" by simp
    then show ?thesis
      using Cons.prems True by (simp add: getLocus_loop_established)
  next
    case False
    have step: "getLocus_loop a (x # xs) fl ws = getLocus_loop a xs fl (ws @ [InvalidVCall x])"
      using Cons.prems False by simp
    show ?thesis
    proof (cases "dropWhile (\<lambda>v. \<not> 3 < length v) xs")
      case Nil
      have ih: "getLocus_loop a xs fl (ws @ [InvalidVCall x]) =
                  (fl, (ws @ [InvalidVCall x]) @ map InvalidVCall xs)"
        using Cons.IH[OF Cons.prems, of "ws @ [InvalidVCall x]"] by (simp only: Nil list.case)
      have dw: "dropWhile (\<lambda>v. \<not> 3 < length v) (x # xs) = []"
        using False Nil by simp
      show ?thesis by (simp only: step ih dw list.case) simp
    next
      case (Cons v rest)
      have ih: "getLocus_loop a xs fl (ws @ [InvalidVCall x]) =
                  (take 3 v, (ws @ [InvalidVCall x])
                     @ map InvalidVCall (takeWhile (\<lambda>v. \<not> 3 < length v) xs)
                     @ map (\<lambda>w. InconsistentLoci a) (filter (\<lambda>w. take 3 w \<noteq> take 3 v) rest))"
        using Cons.IH[OF Cons.prems, of "ws @ [InvalidVCall x]"] by (simp only: Cons list.case)
      have dw: "dropWhile (\<lambda>v. \<not> 3 < length v) (x # xs) = v # rest"
        using False Cons by simp
      have tw: "takeWhile (\<lambda>v. \<not> 3 < length v) (x # xs) = x # takeWhile (\<lambda>v. \<not> 3 < length v) xs"
        using False by simp
      show ?thesis by (simp only: step ih dw tw list.case) simp
    qed
  qed
qed

lemma find_dropWhile:
  "find P xs = (case dropWhile (\<lambda>v. \<not> P v) xs of [] \<Rightarrow> None | v # rest \<Rightarrow> Some v)"
  by (induction xs) simp_all

text \<open>
  Claim C6. \<open>getLocus\<close> returns the first three characters of the first entry that is longer
  than three characters (the empty string when there is none). Each entry before it
  gives an invalid-call warning; each entry after it whose first three characters differ
  gives one inconsistency warning and leaves the locus as it is; and a locus whose first
  two characters are neither IG nor TR is returned all the same, with one more warning.
\<close>

theorem getLocus_first_long_entry:
  "getLocus v_call_array =
     (let locus = (case find (\<lambda>v. 3 < length v) v_call_array of None \<Rightarrow> [] | Some v \<Rightarrow> take 3 v)
      in (locus,
          map InvalidVCall (takeWhile (\<lambda>v. \<not> 3 < length v) v_call_array)
          @ map (\<lambda>w. InconsistentLoci v_call_array)
                (filter (\<lambda>w. take 3 w \<noteq> locus) (tl (dropWhile (\<lambda>v. \<not> 3 < length v) v_call_array)))
          @ (if length locus = 3 \<and> take 2 locus \<noteq> ''IG'' \<and> take 2 locus \<noteq> ''TR''
             then [NonIGTRLocus v_call_array] else [])))"
proof (cases "dropWhile (\<lambda>v. \<not> 3 < length v) v_call_array")
  case Nil
  have t: "takeWhile (\<lambda>v. \<not> 3 < length v) v_call_array = v_call_array"
    using takeWhile_dropWhile_id[of "\<lambda>v. \<not> 3 < length v" v_call_array] by (simp only: Nil append_Nil2)
  have g: "getLocus_loop v_call_array v_call_array [] [] = ([], map InvalidVCall v_call_array)"
    by (simp only: getLocus_loop_searching[of "[]", simplified] Nil list.case append_Nil)
  have f: "find (\<lambda>v. 3 < length v) v_call_array = None"
    by (simp only: find_dropWhile Nil list.case)
  show ?thesis
    unfolding getLocus_def g f t Nil by simp
next
  case (Cons v rest)
  have hd: "3 < length v"
    using hd_dropWhile[of "\<lambda>v. \<not> 3 < length v" v_call_array] by (simp add: Cons)
  have g: "getLocus_loop v_call_array v_call_array [] [] =
     (take 3 v, map InvalidVCall (takeWhile (\<lambda>v. \<not> 3 < length v) v_call_array)
              @ map (\<lambda>w. InconsistentLoci v_call_array) (filter (\<lambda>w. take 3 w \<noteq> take 3 v) rest))"
    by (simp only: getLocus_loop_searching[of "[]", simplified] Cons list.case append_Nil)
  have f: "find (\<lambda>v. 3 < length v) v_call_array = Some v"
    by (simp only: find_dropWhile Cons list.case)
  show ?thesis
    unfolding getLocus_def g f Cons using hd by (simp add: Let_def)
qed

text \<open>The examples of the specification, and a locus that is neither IG nor TR.\<close>

lemma getLocus_consistent:
  "getLocus [''IGHV3-23*01'', ''IGHV1-2*01''] = (''IGH'', [])"
  by (simp add: getLocus_def)

lemma getLocus_inconsistent:
  "getLocus [''IGHV3-23*01'', ''IGKV1-2*01''] =
     (''IGH'', [InconsistentLoci [''IGHV3-23*01'', ''IGKV1-2*01'']])"
  by (simp add: getLocus_def)

lemma getLocus_unknown_locus:
  "getLocus [''XYZ1'', ''IGHV1-2*01''] =
     (''XYZ'', [InconsistentLoci [''XYZ1'', ''IGHV1-2*01''], NonIGTRLocus [''XYZ1'', ''IGHV1-2*01'']])"
  by (simp add: getLocus_def)

section \<open>Properties of the repertoire linkage\<close>

text \<open>
  Claim C1. When the file field is mapped, so that the repository is asked for the
  repertoires of the file name, \<open>getRepertoireInfo\<close> returns \<open>None\<close> when the answer has
  no identifier, returns \<open>None\<close> when it has more than one, and returns the identifier
  when it has exactly one. The query is the only call it makes.
\<close>

theorem getRepertoireInfo_zero_one_many:
  assumes "getMapping p (getRearrangementFileField p) (getiReceptorTag p) (getRepositoryTag p) None
             = Some file_field"
    and "repositoryGetRepertoireIDs p (Some file_field) (PStr filename) = Some ids"
  shows "(length ids = 0 \<longrightarrow> ret (getRepertoireInfo p filename) = Inr PNone)
       \<and> (length ids > 1 \<longrightarrow> ret (getRepertoireInfo p filename) = Inr PNone)
       \<and> (\<forall>x. ids = [x] \<longrightarrow> ret (getRepertoireInfo p filename) = Inr x)
       \<and> calls (getRepertoireInfo p filename)
           = [CallRepositoryGetRepertoireIDs (Some file_field) (PStr filename)]"
  using assms by (auto simp add: getRepertoireInfo_def Let_def)

text \<open>The theorem at a file with no repertoire, one with two, and one with exactly one.\<close>

theorem getRepertoireInfo_zero_one_many_witness:
  "ret (getRepertoireInfo (ex_parser\<lparr>repositoryGetRepertoireIDs := ex_ids\<rparr>) ''none.tsv'') = Inr PNone
   \<and> ret (getRepertoireInfo (ex_parser\<lparr>repositoryGetRepertoireIDs := ex_ids\<rparr>) ''two.tsv'') = Inr PNone
   \<and> ret (getRepertoireInfo (ex_parser\<lparr>repositoryGetRepertoireIDs := ex_ids\<rparr>) ''one.tsv'') = Inr (PObj 7)"
proof -
  let ?p = "ex_parser\<lparr>repositoryGetRepertoireIDs := ex_ids\<rparr>"
  have m: "getMapping ?p (getRearrangementFileField ?p) (getiReceptorTag ?p) (getRepositoryTag ?p) None
             = Some ''files''"
    by (simp add: ex_parser_def ex_mapping_def)
  have q0: "repositoryGetRepertoireIDs ?p (Some ''files'') (PStr ''none.tsv'') = Some []"
    by (simp add: ex_ids_def)
  have q1: "repositoryGetRepertoireIDs ?p (Some ''files'') (PStr ''one.tsv'') = Some [PObj 7]"
    by (simp add: ex_ids_def)
  have q2: "repositoryGetRepertoireIDs ?p (Some ''files'') (PStr ''two.tsv'') = Some [PObj 7, PObj 8]"
    by (simp add: ex_ids_def)
  show ?thesis
    using getRepertoireInfo_zero_one_many[OF m q0]
          getRepertoireInfo_zero_one_many[OF m q1]
          getRepertoireInfo_zero_one_many[OF m q2]
    by simp
qed

section \<open>Properties of the batch checks\<close>

text \<open>
  Claim C8. When the batch already has the column that \<open>repertoire_id\<close>,
  \<open>data_processing_id\<close> or \<open>sample_processing_id\<close> maps to, \<open>checkIDFields\<close> returns
  \<open>False\<close>, leaves the batch as it was, so that no linkage column is assigned, and does
  not ask the repository anything.
\<close>

theorem checkIDFields_preset_column:
  assumes "col_in (getMapping p ''repertoire_id'' (getAIRRTag p) (getRepositoryTag p)
                     (Some (getRepertoireClass p))) dataframe
         \<or> col_in (getMapping p ''data_processing_id'' (getAIRRTag p) (getRepositoryTag p)
                     (Some (getRepertoireClass p))) dataframe
         \<or> col_in (getMapping p ''sample_processing_id'' (getAIRRTag p) (getRepositoryTag p)
                     (Some (getRepertoireClass p))) dataframe"
  shows "ret (fst (checkIDFields p dataframe repertoire_link_id)) = Inr False
       \<and> snd (checkIDFields p dataframe repertoire_link_id) = dataframe
       \<and> calls (fst (checkIDFields p dataframe repertoire_link_id)) = []"
  using assms by (auto simp add: checkIDFields_def Let_def)

text \<open>The theorem at a batch that comes with a \<open>data_processing_id\<close> column.\<close>

theorem checkIDFields_preset_column_witness:
  "ret (fst (checkIDFields ex_parser ex_frame_preset (PObj 7))) = Inr False
   \<and> snd (checkIDFields ex_parser ex_frame_preset (PObj 7)) = ex_frame_preset
   \<and> calls (fst (checkIDFields ex_parser ex_frame_preset (PObj 7))) = []"
proof -
  have c: "col_in (getMapping ex_parser ''data_processing_id'' (getAIRRTag ex_parser)
                     (getRepositoryTag ex_parser) (Some (getRepertoireClass ex_parser)))
                  ex_frame_preset"
    by (simp add: ex_parser_def ex_mapping_def ex_frame_preset_def col_in_def)
  show ?thesis
    using checkIDFields_preset_column[of ex_parser ex_frame_preset "PObj 7"] c by blast
qed

section \<open>Properties of the field type check\<close>

declare validAIRRFieldType.simps [simp del]

text \<open>
  Claim C9. For a key without an AIRR type in the mapping, \<open>validAIRRFieldType\<close> is
  \<open>True\<close> when \<open>strict\<close> is off and \<open>False\<close> when it is on, whatever the value.
\<close>

theorem validAIRRFieldType_non_airr_key:
  assumes "getMapping p key (getAIRRTag p) ''airr_type'' (Some (getRepertoireClass p)) = None"
  shows "validAIRRFieldType p key value strict = (\<not> strict)"
  using assms by (subst validAIRRFieldType.simps) simp

text \<open>The theorem at the key \<open>lab_name\<close>, which the example mapping does not type.\<close>

theorem validAIRRFieldType_non_airr_key_witness:
  "validAIRRFieldType ex_parser ''lab_name'' (PInt 3) False
   \<and> \<not> validAIRRFieldType ex_parser ''lab_name'' (PInt 3) True"
proof -
  have m: "getMapping ex_parser ''lab_name'' (getAIRRTag ex_parser) ''airr_type''
             (Some (getRepertoireClass ex_parser)) = None"
    by (simp add: ex_parser_def ex_mapping_def)
  show ?thesis
    using validAIRRFieldType_non_airr_key[OF m, of "PInt 3" False]
          validAIRRFieldType_non_airr_key[OF m, of "PInt 3" True]
    by simp
qed

text \<open>A typed key is checked against its type in both modes.\<close>

lemma validAIRRFieldType_typed_key:
  "validAIRRFieldType ex_parser ''repertoire_id'' (PStr ''R1'') True
   \<and> \<not> validAIRRFieldType ex_parser ''repertoire_id'' (PInt 3) False"
  by (subst validAIRRFieldType.simps, subst validAIRRFieldType.simps)
     (simp add: ex_parser_def ex_mapping_def)

section \<open>Properties of the required-field check\<close>

lemma col_in_set_scalar:
  "col_in (Some k) (set_scalar df f v) = (k = f \<or> col_in (Some k) df)"
  by (simp add: col_in_def set_scalar_def update_conv')

lemma loop_step:
  "checkAIRRRequired_loop df (row # rest) ms =
     (if required_row row \<and> \<not> col_in (Some (repository_field row)) df then
        (if nullable_row row
         then checkAIRRRequired_loop (set_scalar df (repository_field row) np_nan) rest
                (ms @ [WarnNullableRequiredMissing (airr_field row)])
         else (False, df, ms @ [ErrRequiredMissing (airr_field row) (repository_field row)]))
      else checkAIRRRequired_loop df rest ms)"
  by (simp add: required_row_def nullable_row_def)

lemma loop_succeeds:
  "(\<forall>row \<in> set rows. required_row row \<and> \<not> col_in (Some (repository_field row)) df \<longrightarrow> nullable_row row)
   \<Longrightarrow> fst (checkAIRRRequired_loop df rows ms)"
proof (induction rows arbitrary: df ms)
  case Nil
  then show ?case by simp
next
  case (Cons row rest)
  show ?case
  proof (cases "required_row row \<and> \<not> col_in (Some (repository_field row)) df")
    case True
    then have n: "nullable_row row" using Cons.prems by simp
    have "\<forall>r \<in> set rest. required_row r \<and>
            \<not> col_in (Some (repository_field r)) (set_scalar df (repository_field row) np_nan)
            \<longrightarrow> nullable_row r"
      using Cons.prems by (simp add: col_in_set_scalar)
    then show ?thesis using True n Cons.IH by (simp only: loop_step) simp
  next
    case False
    have "\<forall>r \<in> set rest. required_row r \<and> \<not> col_in (Some (repository_field r)) df \<longrightarrow> nullable_row r"
      using Cons.prems by simp
    then show ?thesis using False Cons.IH by (simp only: loop_step) auto
  qed
qed

lemma loop_frame:
  "checkAIRRRequired_loop df rows ms = (True, df', ms') \<Longrightarrow>
   nrows df' = nrows df \<and>
   (\<forall>k. map_of (columns df') k =
     (if map_of (columns df) k \<noteq> None then map_of (columns df) k
      else if k \<in> repository_field ` {r \<in> set rows. required_row r}
      then Some (replicate (nrows df) np_nan) else None))"
proof (induction rows arbitrary: df ms)
  case Nil
  then show ?case by simp
next
  case (Cons row rest)
  show ?case
  proof (cases "required_row row \<and> \<not> col_in (Some (repository_field row)) df")
    case True
    then have n: "nullable_row row" using Cons.prems by (auto simp only: loop_step split: if_splits)
    let ?df = "set_scalar df (repository_field row) np_nan"
    have run: "checkAIRRRequired_loop ?df rest (ms @ [WarnNullableRequiredMissing (airr_field row)])
                 = (True, df', ms')"
      using Cons.prems True n by (simp only: loop_step) simp
    have ih: "nrows df' = nrows ?df \<and>
       (\<forall>k. map_of (columns df') k =
         (if map_of (columns ?df) k \<noteq> None then map_of (columns ?df) k
          else if k \<in> repository_field ` {r \<in> set rest. required_row r}
          then Some (replicate (nrows ?df) np_nan) else None))"
      using Cons.IH[OF run] .
    have absent: "map_of (columns df) (repository_field row) = None"
      using True by (simp add: col_in_def)
    show ?thesis
      using ih True absent by (auto simp add: set_scalar_def update_conv')
  next
    case False
    have run: "checkAIRRRequired_loop df rest ms = (True, df', ms')"
      using Cons.prems False by (simp only: loop_step) simp
    have present: "required_row row \<Longrightarrow> map_of (columns df) (repository_field row) \<noteq> None"
      using False by (simp add: col_in_def)
    show ?thesis
      using Cons.IH[OF run] present by auto
  qed
qed

lemma loop_fails:
  "rows = pre @ row # post \<Longrightarrow> required_row row \<Longrightarrow> \<not> nullable_row row \<Longrightarrow>
   \<not> col_in (Some (repository_field row)) df \<Longrightarrow>
   repository_field row \<notin> repository_field ` {r \<in> set pre. required_row r \<and> nullable_row r} \<Longrightarrow>
   \<not> fst (checkAIRRRequired_loop df rows ms)"
proof (induction pre arbitrary: rows df ms)
  case Nil
  then show ?case by (simp only: loop_step append_Nil) simp
next
  case (Cons r pre)
  have rows: "rows = r # (pre @ row # post)" using Cons.prems(1) by simp
  have notin: "repository_field row \<notin> repository_field ` {r \<in> set pre. required_row r \<and> nullable_row r}"
    using Cons.prems(5) by auto
  show ?case
  proof (cases "required_row r \<and> \<not> col_in (Some (repository_field r)) df")
    case True
    show ?thesis
    proof (cases "nullable_row r")
      case n: True
      then have ne: "repository_field row \<noteq> repository_field r"
        using Cons.prems(5) True by auto
      have absent: "\<not> col_in (Some (repository_field row)) (set_scalar df (repository_field r) np_nan)"
        using Cons.prems(4) ne by (simp add: col_in_set_scalar)
      show ?thesis
        using Cons.IH[OF refl Cons.prems(2) Cons.prems(3) absent notin] True n
        by (simp only: rows loop_step) simp
    next
      case False
      then show ?thesis using True by (simp only: rows loop_step) simp
    qed
  next
    case False
    then show ?thesis
      using Cons.IH[OF refl Cons.prems(2) Cons.prems(3) Cons.prems(4) notin]
      by (simp only: rows loop_step) auto
  qed
qed

lemma loop_names_field:
  "\<not> fst (checkAIRRRequired_loop df rows ms) \<Longrightarrow>
   \<exists>r \<in> set rows. required_row r \<and> \<not> nullable_row r \<and> \<not> col_in (Some (repository_field r)) df \<and>
     snd (snd (checkAIRRRequired_loop df rows ms)) \<noteq> [] \<and>
     last (snd (snd (checkAIRRRequired_loop df rows ms)))
       = ErrRequiredMissing (airr_field r) (repository_field r)"
proof (induction rows arbitrary: df ms)
  case Nil
  then show ?case by simp
next
  case (Cons row rest)
  show ?case
  proof (cases "required_row row \<and> \<not> col_in (Some (repository_field row)) df")
    case True
    show ?thesis
    proof (cases "nullable_row row")
      case n: True
      let ?df = "set_scalar df (repository_field row) np_nan"
      let ?ms = "ms @ [WarnNullableRequiredMissing (airr_field row)]"
      have eq: "checkAIRRRequired_loop df (row # rest) ms = checkAIRRRequired_loop ?df rest ?ms"
        using True n by (simp only: loop_step) simp
      have "\<not> fst (checkAIRRRequired_loop ?df rest ?ms)" using Cons.prems eq by simp
      from Cons.IH[OF this] obtain r where r: "r \<in> set rest" "required_row r" "\<not> nullable_row r"
        "\<not> col_in (Some (repository_field r)) ?df"
        "snd (snd (checkAIRRRequired_loop ?df rest ?ms)) \<noteq> []"
        "last (snd (snd (checkAIRRRequired_loop ?df rest ?ms)))
           = ErrRequiredMissing (airr_field r) (repository_field r)"
        by blast
      have "\<not> col_in (Some (repository_field r)) df" using r(4) by (simp add: col_in_set_scalar)
      then show ?thesis using r eq by auto
    next
      case False
      then show ?thesis using True by (simp only: loop_step) simp
    qed
  next
    case False
    have eq: "checkAIRRRequired_loop df (row # rest) ms = checkAIRRRequired_loop df rest ms"
      using False by (simp only: loop_step) auto
    have "\<not> fst (checkAIRRRequired_loop df rest ms)" using Cons.prems eq by simp
    from Cons.IH[OF this] show ?thesis using eq by auto
  qed
qed

text \<open>
  What the code does, in terms of its own truth test of \<open>airr_nullable\<close>. A required
  field is missing when the batch has no column for it at the time its row is examined.
  When the flag is true for every required field missing from the batch,
  \<open>checkAIRRRequired\<close> returns \<open>True\<close>; the batch it leaves has its old columns
  unchanged and, for each missing required field, a column filled with NaN, and no
  other column. When a required field whose flag is false is missing (and no earlier
  row has put its column in), it returns \<open>False\<close>, and the last message printed names
  such a field.
\<close>

lemma checkAIRRRequired_missing_fields:
  "((\<forall>row \<in> set airr_fields.
        required_row row \<and> \<not> col_in (Some (repository_field row)) dataframe \<longrightarrow> nullable_row row) \<longrightarrow>
      (case checkAIRRRequired dataframe airr_fields of
         (ok, dataframe', ms) \<Rightarrow>
           ok \<and> nrows dataframe' = nrows dataframe \<and>
           (\<forall>k. map_of (columns dataframe') k =
              (if map_of (columns dataframe) k \<noteq> None then map_of (columns dataframe) k
               else if k \<in> repository_field ` {r \<in> set airr_fields. required_row r}
               then Some (replicate (nrows dataframe) np_nan) else None))))
   \<and> ((\<exists>pre row post.
          airr_fields = pre @ row # post \<and> required_row row \<and> \<not> nullable_row row \<and>
          \<not> col_in (Some (repository_field row)) dataframe \<and>
          repository_field row \<notin> repository_field ` {r \<in> set pre. required_row r \<and> nullable_row r}) \<longrightarrow>
      (case checkAIRRRequired dataframe airr_fields of
         (ok, dataframe', ms) \<Rightarrow>
           \<not> ok \<and>
           (\<exists>r \<in> set airr_fields.
              required_row r \<and> \<not> nullable_row r \<and> \<not> col_in (Some (repository_field r)) dataframe \<and>
              ms \<noteq> [] \<and> last ms = ErrRequiredMissing (airr_field r) (repository_field r))))"
proof (intro conjI impI)
  assume a: "\<forall>row \<in> set airr_fields.
        required_row row \<and> \<not> col_in (Some (repository_field row)) dataframe \<longrightarrow> nullable_row row"
  obtain ok dataframe' ms where r: "checkAIRRRequired dataframe airr_fields = (ok, dataframe', ms)"
    by (cases "checkAIRRRequired dataframe airr_fields") auto
  have ok: "ok" using loop_succeeds[OF a, of "[]"] r by (simp add: checkAIRRRequired_def)
  have "checkAIRRRequired_loop dataframe airr_fields [] = (True, dataframe', ms)"
    using r ok by (simp add: checkAIRRRequired_def)
  from loop_frame[OF this] show
    "case checkAIRRRequired dataframe airr_fields of
         (ok, dataframe', ms) \<Rightarrow>
           ok \<and> nrows dataframe' = nrows dataframe \<and>
           (\<forall>k. map_of (columns dataframe') k =
              (if map_of (columns dataframe) k \<noteq> None then map_of (columns dataframe) k
               else if k \<in> repository_field ` {r \<in> set airr_fields. required_row r}
               then Some (replicate (nrows dataframe) np_nan) else None))"
    using r ok by simp
next
  assume "\<exists>pre row post.
          airr_fields = pre @ row # post \<and> required_row row \<and> \<not> nullable_row row \<and>
          \<not> col_in (Some (repository_field row)) dataframe \<and>
          repository_field row \<notin> repository_field ` {r \<in> set pre. required_row r \<and> nullable_row r}"
  then obtain pre row post where b: "airr_fields = pre @ row # post" "required_row row"
      "\<not> nullable_row row" "\<not> col_in (Some (repository_field row)) dataframe"
      "repository_field row \<notin> repository_field ` {r \<in> set pre. required_row r \<and> nullable_row r}"
    by blast
  have f: "\<not> fst (checkAIRRRequired_loop dataframe airr_fields [])"
    using loop_fails[OF b] .
  obtain ok dataframe' ms where r: "checkAIRRRequired_loop dataframe airr_fields [] = (ok, dataframe', ms)"
    by (cases "checkAIRRRequired_loop dataframe airr_fields []") auto
  show "case checkAIRRRequired dataframe airr_fields of
         (ok, dataframe', ms) \<Rightarrow>
           \<not> ok \<and>
           (\<exists>r \<in> set airr_fields.
              required_row r \<and> \<not> nullable_row r \<and> \<not> col_in (Some (repository_field r)) dataframe \<and>
              ms \<noteq> [] \<and> last ms = ErrRequiredMissing (airr_field r) (repository_field r))"
    using f loop_names_field[OF f] r by (simp add: checkAIRRRequired_def)
qed

text \<open>
  The lemma at a batch that lacks the nullable \<open>rev_comp\<close>, and at the same batch when
  \<open>v_call\<close>, which is not nullable, is required too; both with boolean flags.
\<close>

lemma checkAIRRRequired_missing_fields_example:
  "fst (checkAIRRRequired ex_frame [row_sequence, row_rev_comp])
   \<and> map_of (columns (fst (snd (checkAIRRRequired ex_frame [row_sequence, row_rev_comp])))) ''rev_comp''
       = Some [np_nan, np_nan]
   \<and> \<not> fst (checkAIRRRequired ex_frame [row_sequence, row_rev_comp, row_v_call])
   \<and> last (snd (snd (checkAIRRRequired ex_frame [row_sequence, row_rev_comp, row_v_call])))
       = ErrRequiredMissing (PStr ''v_call'') ''v_call''"
proof -
  have req: "required_row row_sequence" "required_row row_rev_comp" "required_row row_v_call"
    by (simp_all add: required_row_def row_sequence_def row_rev_comp_def row_v_call_def)
  have nul: "\<not> nullable_row row_sequence" "nullable_row row_rev_comp" "\<not> nullable_row row_v_call"
    by (simp_all add: nullable_row_def row_sequence_def row_rev_comp_def row_v_call_def)
  have col: "col_in (Some (repository_field row_sequence)) ex_frame"
      "\<not> col_in (Some (repository_field row_rev_comp)) ex_frame"
      "\<not> col_in (Some (repository_field row_v_call)) ex_frame"
    by (simp_all add: col_in_def ex_frame_def row_sequence_def row_rev_comp_def row_v_call_def)
  have fld: "repository_field row_sequence = ''sequence''" "repository_field row_rev_comp = ''rev_comp''"
      "repository_field row_v_call = ''v_call''" "airr_field row_v_call = PStr ''v_call''"
    by (simp_all add: row_sequence_def row_rev_comp_def row_v_call_def)
  have h1: "\<forall>row \<in> set [row_sequence, row_rev_comp].
        required_row row \<and> \<not> col_in (Some (repository_field row)) ex_frame \<longrightarrow> nullable_row row"
    using nul col by simp
  have h2: "\<exists>pre row post.
          [row_sequence, row_rev_comp, row_v_call] = pre @ row # post \<and> required_row row \<and>
          \<not> nullable_row row \<and> \<not> col_in (Some (repository_field row)) ex_frame \<and>
          repository_field row \<notin> repository_field ` {r \<in> set pre. required_row r \<and> nullable_row r}"
    by (rule exI[of _ "[row_sequence, row_rev_comp]"], rule exI[of _ row_v_call], rule exI[of _ "[]"])
       (use req nul col fld in auto)
  obtain ok1 df1 ms1 where r1:
      "checkAIRRRequired ex_frame [row_sequence, row_rev_comp] = (ok1, df1, ms1)"
    by (cases "checkAIRRRequired ex_frame [row_sequence, row_rev_comp]") auto
  obtain ok2 df2 ms2 where r2:
      "checkAIRRRequired ex_frame [row_sequence, row_rev_comp, row_v_call] = (ok2, df2, ms2)"
    by (cases "checkAIRRRequired ex_frame [row_sequence, row_rev_comp, row_v_call]") auto
  have s: "ok1 \<and> nrows df1 = nrows ex_frame \<and>
           (\<forall>k. map_of (columns df1) k =
              (if map_of (columns ex_frame) k \<noteq> None then map_of (columns ex_frame) k
               else if k \<in> repository_field ` {r \<in> set [row_sequence, row_rev_comp]. required_row r}
               then Some (replicate (nrows ex_frame) np_nan) else None))"
    using checkAIRRRequired_missing_fields[of "[row_sequence, row_rev_comp]" ex_frame,
            THEN conjunct1, THEN mp, OF h1, unfolded r1 prod.case] .
  have f: "\<not> ok2 \<and>
           (\<exists>r \<in> set [row_sequence, row_rev_comp, row_v_call].
              required_row r \<and> \<not> nullable_row r \<and> \<not> col_in (Some (repository_field r)) ex_frame \<and>
              ms2 \<noteq> [] \<and> last ms2 = ErrRequiredMissing (airr_field r) (repository_field r))"
    using checkAIRRRequired_missing_fields[of "[row_sequence, row_rev_comp, row_v_call]" ex_frame,
            THEN conjunct2, THEN mp, OF h2, unfolded r2 prod.case] .
  have absent: "map_of (columns ex_frame) ''rev_comp'' = None" by (simp add: ex_frame_def)
  have inj: "''rev_comp'' \<in> repository_field ` {r \<in> set [row_sequence, row_rev_comp]. required_row r}"
    using req(2) fld(2) by force
  have rep: "replicate (nrows ex_frame) np_nan = [np_nan, np_nan]"
    by (simp add: ex_frame_def numeral_2_eq_2)
  have s2: "map_of (columns df1) ''rev_comp'' = Some [np_nan, np_nan]"
    using s absent inj rep by simp
  from f obtain r where r: "r \<in> set [row_sequence, row_rev_comp, row_v_call]" "\<not> nullable_row r"
      "\<not> col_in (Some (repository_field r)) ex_frame"
      "last ms2 = ErrRequiredMissing (airr_field r) (repository_field r)"
    by blast
  have "r = row_v_call" using r(1,2,3) nul(2) col(1) by auto
  then have f2: "last ms2 = ErrRequiredMissing (PStr ''v_call'') ''v_call''"
    using r(4) fld by simp
  show ?thesis using s s2 f f2 by (simp add: r1 r2)
qed

text \<open>
  Claim C7. The claim asks for \<open>False\<close> when a mandatory field that is not declared
  nullable has no column in the batch. The code tests the declaration by truth value
  only, although it accepts the string \<open>TRUE\<close> for \<open>airr_required\<close> on the line before.
  Here the batch has the column \<open>sequence\<close> only, and the one mapping row declares
  \<open>v_call\<close> required (\<open>TRUE\<close>) and not nullable (\<open>FALSE\<close>), both as strings: the code
  takes the field for nullable, prints the warning, adds \<open>v_call\<close> as a column of NaN
  and returns \<open>True\<close>.
\<close>

theorem checkAIRRRequired_false_string_null_filled:
  "checkAIRRRequired ex_frame [row_v_call_strings] =
     (True,
      \<lparr>nrows = 2,
       columns = [(''sequence'', [PStr ''ACGT'', PStr ''TTGA'']), (''v_call'', [np_nan, np_nan])]\<rparr>,
      [WarnNullableRequiredMissing (PStr ''v_call'')])"
  by (simp add: checkAIRRRequired_def ex_frame_def row_v_call_strings_def col_in_def
        set_scalar_def numeral_2_eq_2)

text \<open>With the flag as the boolean \<open>False\<close> the same batch is refused.\<close>

lemma checkAIRRRequired_false_boolean_refused:
  "checkAIRRRequired ex_frame [row_v_call] =
     (False, ex_frame, [ErrRequiredMissing (PStr ''v_call'') ''v_call''])"
  by (simp add: checkAIRRRequired_def ex_frame_def row_v_call_def col_in_def)

section \<open>Properties of the repertoire insert: the check of the rearrangement files\<close>

text \<open>
  Whatever the branch taken, the calls made after the file check are added behind those
  made before, none of them asks for the repertoires of a file again, and the messages
  are added behind the earlier ones.
\<close>

lemma write_back_no_query: "\<not> list_ex is_file_query (write_back p l rid f x)"
  by (simp add: write_back_def)

lemma update_branch_extends:
  "\<exists>rest ms'. calls (update_branch p d l r da sa rid dpid spid recs cs ms) = cs @ rest
      \<and> \<not> list_ex is_file_query rest
      \<and> msgs (update_branch p d l r da sa rid dpid spid recs cs ms) = ms @ ms'"
  by (simp add: update_branch_def Let_def split: sum.splits option.splits)

lemma insert_branch_extends:
  "\<exists>rest ms'. calls (insert_branch p d l r da sa rid dpid spid recs cs ms) = cs @ rest
      \<and> \<not> list_ex is_file_query rest
      \<and> msgs (insert_branch p d l r da sa rid dpid spid recs cs ms) = ms @ ms'"
  by (simp add: insert_branch_def Let_def write_back_no_query split: sum.splits option.splits)

lemma resolve_and_write_extends:
  "\<exists>rest ms'. calls (resolve_and_write p d l cs ms) = cs @ rest
      \<and> \<not> list_ex is_file_query rest
      \<and> msgs (resolve_and_write p d l cs ms) = ms @ ms'"
proof (cases "getMapping p ''repertoire_id'' (getAIRRTag p) (getRepositoryTag p)
                (Some (getRepertoireClass p)) = None")
  case True
  then show ?thesis by (simp add: resolve_and_write_def)
next
  case False
  let ?r = "getMapping p ''repertoire_id'' (getAIRRTag p) (getRepositoryTag p)
                (Some (getRepertoireClass p))"
  let ?da = "getMapping p ''data_processing_id'' (getAIRRTag p) (getRepositoryTag p)
                (Some (getRepertoireClass p))"
  let ?sa = "getMapping p ''sample_processing_id'' (getAIRRTag p) (getRepositoryTag p)
                (Some (getRepertoireClass p))"
  let ?cs = "cs @ [CallRepositoryGetRepertoires ?r (incoming_id d ?r)]"
  let ?recs = "repositoryGetRepertoires p ?r (incoming_id d ?r)"
  show ?thesis
  proof (cases "updateOnly p")
    case True
    obtain rest ms' where
      "calls (update_branch p d l ?r ?da ?sa (incoming_id d ?r) (incoming_id d ?da)
                (incoming_id d ?sa) ?recs ?cs ms) = ?cs @ rest"
      "\<not> list_ex is_file_query rest"
      "msgs (update_branch p d l ?r ?da ?sa (incoming_id d ?r) (incoming_id d ?da)
                (incoming_id d ?sa) ?recs ?cs ms) = ms @ ms'"
      using update_branch_extends by blast
    then show ?thesis using True False
      by (simp add: resolve_and_write_def Let_def)
  next
    case ins: False
    obtain rest ms' where
      "calls (insert_branch p d l ?r ?da ?sa (incoming_id d ?r) (incoming_id d ?da)
                (incoming_id d ?sa) ?recs ?cs ms) = ?cs @ rest"
      "\<not> list_ex is_file_query rest"
      "msgs (insert_branch p d l ?r ?da ?sa (incoming_id d ?r) (incoming_id d ?da)
                (incoming_id d ?sa) ?recs ?cs ms) = ms @ ms'"
      using insert_branch_extends by blast
    then show ?thesis using ins False
      by (simp add: resolve_and_write_def Let_def)
  qed
qed


text \<open>The run of the function on the example document without file names.\<close>

lemma ex_no_files_run:
  "repositoryInsertRepertoire ex_parser ex_doc_no_files =
      \<lparr>ret = Inr (PObj 7),
       calls = [CallRepositoryGetRepertoires (Some ''repertoire_id'') (PStr ''R9''),
                CallInsertRepertoire
                  [(''files'', PStr []), (''repertoire_id'', PStr ''R9''),
                   (''ir_updated_at'', PStr ''now''), (''ir_created_at'', PStr ''now''),
                   (''count'', PInt 0)] (Some ''_id''),
                CallUpdateField (Some ''_id'') (PObj 7) (Some ''data_processing_id'') (PStr ''7''),
                CallUpdateField (Some ''_id'') (PObj 7) (Some ''sample_processing_id'') (PStr ''7'')],
       msgs = [WarnNoRearrangementFiles]\<rparr>"
  by (simp add: repositoryInsertRepertoire_def resolve_and_write_def insert_branch_def
        write_back_def ex_parser_def ex_mapping_def ex_doc_no_files_def getitem_def key_in_def
        incoming_id_def Let_def)

text \<open>
  Claim C10. In insert mode, for a document that has the rearrangement-file field:
  when the field names files and the repository answers with at least one repertoire
  that has them, \<open>repositoryInsertRepertoire\<close> returns \<open>None\<close> and the file query is the
  only call it has made, so no record was looked up by identifier and nothing was
  written. When the field is \<open>None\<close> or the empty string, the file query is not made,
  the first message is the warning, and the function goes on with the resolution of the
  identifiers; and there is such a document that is then inserted.
\<close>

theorem repositoryInsertRepertoire_file_check:
  assumes "\<not> updateOnly p"
    and "getitem json_document
           (getMapping p (getRearrangementFileField p) (getiReceptorTag p) (getRepositoryTag p) None)
         = Inr file_names"
  shows "(file_names \<noteq> PNone \<and> \<not> py_eq file_names (PStr []) \<and>
          repositoryGetRepertoireIDs p
            (getMapping p (getRearrangementFileField p) (getiReceptorTag p) (getRepositoryTag p) None)
            file_names = Some ids \<and> ids \<noteq> [] \<longrightarrow>
            repositoryInsertRepertoire p json_document =
              \<lparr>ret = Inr PNone,
               calls = [CallRepositoryGetRepertoireIDs
                          (getMapping p (getRearrangementFileField p) (getiReceptorTag p)
                             (getRepositoryTag p) None) file_names],
               msgs = [ErrAlreadyExists ids]\<rparr>)
       \<and> (file_names = PNone \<or> py_eq file_names (PStr []) \<longrightarrow>
            \<not> list_ex is_file_query (calls (repositoryInsertRepertoire p json_document)) \<and>
            hd (msgs (repositoryInsertRepertoire p json_document)) = WarnNoRearrangementFiles \<and>
            repositoryInsertRepertoire p json_document =
              resolve_and_write p json_document
                (getMapping p (getRepertoireLinkIDField p) (getiReceptorTag p) (getRepositoryTag p) None)
                [] [WarnNoRearrangementFiles])
       \<and> (\<exists>p' d'. \<not> updateOnly p' \<and>
             getitem d' (getMapping p' (getRearrangementFileField p') (getiReceptorTag p')
                           (getRepositoryTag p') None) = Inr (PStr []) \<and>
             ret (repositoryInsertRepertoire p' d') \<noteq> Inr PNone \<and>
             list_ex is_insert (calls (repositoryInsertRepertoire p' d')))"
proof (intro conjI impI)
  assume "file_names \<noteq> PNone \<and> \<not> py_eq file_names (PStr []) \<and>
          repositoryGetRepertoireIDs p
            (getMapping p (getRearrangementFileField p) (getiReceptorTag p) (getRepositoryTag p) None)
            file_names = Some ids \<and> ids \<noteq> []"
  then show "repositoryInsertRepertoire p json_document =
              \<lparr>ret = Inr PNone,
               calls = [CallRepositoryGetRepertoireIDs
                          (getMapping p (getRearrangementFileField p) (getiReceptorTag p)
                             (getRepositoryTag p) None) file_names],
               msgs = [ErrAlreadyExists ids]\<rparr>"
    using assms by (simp add: repositoryInsertRepertoire_def Let_def)
next
  assume nf: "file_names = PNone \<or> py_eq file_names (PStr [])"
  have eq: "repositoryInsertRepertoire p json_document =
              resolve_and_write p json_document
                (getMapping p (getRepertoireLinkIDField p) (getiReceptorTag p) (getRepositoryTag p) None)
                [] [WarnNoRearrangementFiles]"
    using assms nf by (simp add: repositoryInsertRepertoire_def Let_def)
  obtain rest ms' where ext:
      "calls (resolve_and_write p json_document
                (getMapping p (getRepertoireLinkIDField p) (getiReceptorTag p) (getRepositoryTag p) None)
                [] [WarnNoRearrangementFiles]) = [] @ rest"
      "\<not> list_ex is_file_query rest"
      "msgs (resolve_and_write p json_document
                (getMapping p (getRepertoireLinkIDField p) (getiReceptorTag p) (getRepositoryTag p) None)
                [] [WarnNoRearrangementFiles]) = [WarnNoRearrangementFiles] @ ms'"
    using resolve_and_write_extends by blast
  show "\<not> list_ex is_file_query (calls (repositoryInsertRepertoire p json_document))"
    using ext by (simp add: eq)
  show "hd (msgs (repositoryInsertRepertoire p json_document)) = WarnNoRearrangementFiles"
    using ext by (simp add: eq)
  show "repositoryInsertRepertoire p json_document =
              resolve_and_write p json_document
                (getMapping p (getRepertoireLinkIDField p) (getiReceptorTag p) (getRepositoryTag p) None)
                [] [WarnNoRearrangementFiles]"
    by (rule eq)
next
  have "\<not> updateOnly ex_parser \<and>
        getitem ex_doc_no_files
          (getMapping ex_parser (getRearrangementFileField ex_parser) (getiReceptorTag ex_parser)
             (getRepositoryTag ex_parser) None) = Inr (PStr []) \<and>
        ret (repositoryInsertRepertoire ex_parser ex_doc_no_files) \<noteq> Inr PNone \<and>
        list_ex is_insert (calls (repositoryInsertRepertoire ex_parser ex_doc_no_files))"
    by (simp add: ex_no_files_run) (simp add: ex_parser_def ex_mapping_def ex_doc_no_files_def getitem_def)
  then show "\<exists>p' d'. \<not> updateOnly p' \<and>
             getitem d' (getMapping p' (getRearrangementFileField p') (getiReceptorTag p')
                           (getRepositoryTag p') None) = Inr (PStr []) \<and>
             ret (repositoryInsertRepertoire p' d') \<noteq> Inr PNone \<and>
             list_ex is_insert (calls (repositoryInsertRepertoire p' d'))"
    by blast
qed

text \<open>
  The theorem at a document whose file a repertoire already has, and at a document with
  an empty file field.
\<close>

theorem repositoryInsertRepertoire_file_check_witness:
  "repositoryInsertRepertoire (ex_parser\<lparr>repositoryGetRepertoireIDs := ex_ids\<rparr>) ex_doc_one =
     \<lparr>ret = Inr PNone,
      calls = [CallRepositoryGetRepertoireIDs (Some ''files'') (PStr ''one.tsv'')],
      msgs = [ErrAlreadyExists [PObj 7]]\<rparr>
   \<and> \<not> list_ex is_file_query (calls (repositoryInsertRepertoire ex_parser ex_doc_no_files))
   \<and> hd (msgs (repositoryInsertRepertoire ex_parser ex_doc_no_files)) = WarnNoRearrangementFiles"
proof -
  let ?p = "ex_parser\<lparr>repositoryGetRepertoireIDs := ex_ids\<rparr>"
  have ff: "getMapping ?p (getRearrangementFileField ?p) (getiReceptorTag ?p) (getRepositoryTag ?p) None
             = Some ''files''"
    by (simp add: ex_parser_def ex_mapping_def)
  have ff0: "getMapping ex_parser (getRearrangementFileField ex_parser) (getiReceptorTag ex_parser)
               (getRepositoryTag ex_parser) None = Some ''files''"
    by (simp add: ex_parser_def ex_mapping_def)
  have m1: "\<not> updateOnly ?p" by (simp add: ex_parser_def)
  have m0: "\<not> updateOnly ex_parser" by (simp add: ex_parser_def)
  have g1: "getitem ex_doc_one
              (getMapping ?p (getRearrangementFileField ?p) (getiReceptorTag ?p) (getRepositoryTag ?p) None)
            = Inr (PStr ''one.tsv'')"
    by (simp only: ff) (simp add: ex_doc_one_def getitem_def)
  have g0: "getitem ex_doc_no_files
              (getMapping ex_parser (getRearrangementFileField ex_parser) (getiReceptorTag ex_parser)
                 (getRepositoryTag ex_parser) None)
            = Inr (PStr [])"
    by (simp only: ff0) (simp add: ex_doc_no_files_def getitem_def)
  have q: "PStr ''one.tsv'' \<noteq> PNone \<and> \<not> py_eq (PStr ''one.tsv'') (PStr []) \<and>
          repositoryGetRepertoireIDs ?p
            (getMapping ?p (getRearrangementFileField ?p) (getiReceptorTag ?p) (getRepositoryTag ?p) None)
            (PStr ''one.tsv'') = Some [PObj 7] \<and> [PObj 7] \<noteq> []"
    by (simp add: ex_ids_def)
  have e: "PStr [] = PNone \<or> py_eq (PStr []) (PStr [])" by simp
  note a = repositoryInsertRepertoire_file_check[OF m1 g1, of "[PObj 7]", THEN conjunct1, THEN mp, OF q]
  note b = repositoryInsertRepertoire_file_check[OF m0 g0, of "[]", THEN conjunct2, THEN conjunct1,
             THEN mp, OF e]
  have a': "repositoryInsertRepertoire ?p ex_doc_one =
     \<lparr>ret = Inr PNone,
      calls = [CallRepositoryGetRepertoireIDs (Some ''files'') (PStr ''one.tsv'')],
      msgs = [ErrAlreadyExists [PObj 7]]\<rparr>"
    using a by (simp only: ff)
  show ?thesis
    by (intro conjI) (rule a', rule b[THEN conjunct1], rule b[THEN conjunct2, THEN conjunct1])
qed

section \<open>Properties of the repertoire insert: the insert branch\<close>

text \<open>
  The insert branch does one of three things: it stops at a duplicate without a call,
  it raises \<open>NameError\<close> when the count field is not mapped, or it calls
  \<open>insertRepertoire\<close> and, when that gives an identifier, writes the missing identifiers
  back.
\<close>

lemma insert_branch_duplicate:
  assumes "recs \<noteq> []" and "duplicate_loop da sa dpid spid recs True"
  shows "(ret (insert_branch p d l r da sa rid dpid spid recs cs ms) = Inr PNone
          \<or> ret (insert_branch p d l r da sa rid dpid spid recs cs ms) = Inl KeyError)
       \<and> calls (insert_branch p d l r da sa rid dpid spid recs cs ms) = cs"
  using assms
  by (simp add: insert_branch_def Let_def getitem_def split: sum.splits option.splits)

lemma insert_branch_proceeds:
  assumes "recs = [] \<or> \<not> duplicate_loop da sa dpid spid recs True"
    and "getMapping p (getRearrangementCountField p) (getiReceptorTag p) (getRepositoryTag p) None
           = Some c"
  shows "insert_branch p d l r da sa rid dpid spid recs cs ms =
     (if insertRepertoire p
           (AList.update c (PInt 0)
              (AList.update ''ir_created_at'' (getDateTimeNowUTC p 1)
                 (AList.update ''ir_updated_at'' (getDateTimeNowUTC p 0) d))) l = PNone
      then \<lparr>ret = Inr PNone,
            calls = cs @ [CallInsertRepertoire
                       (AList.update c (PInt 0)
                          (AList.update ''ir_created_at'' (getDateTimeNowUTC p 1)
                             (AList.update ''ir_updated_at'' (getDateTimeNowUTC p 0) d))) l],
            msgs = ms @ [ErrWriteFailed]\<rparr>
      else \<lparr>ret = Inr (insertRepertoire p
                        (AList.update c (PInt 0)
                           (AList.update ''ir_created_at'' (getDateTimeNowUTC p 1)
                              (AList.update ''ir_updated_at'' (getDateTimeNowUTC p 0) d))) l),
            calls = cs @ [CallInsertRepertoire
                       (AList.update c (PInt 0)
                          (AList.update ''ir_created_at'' (getDateTimeNowUTC p 1)
                             (AList.update ''ir_updated_at'' (getDateTimeNowUTC p 0) d))) l]
                  @ write_back p l
                      (insertRepertoire p
                        (AList.update c (PInt 0)
                           (AList.update ''ir_created_at'' (getDateTimeNowUTC p 1)
                              (AList.update ''ir_updated_at'' (getDateTimeNowUTC p 0) d))) l) r rid
                  @ write_back p l
                      (insertRepertoire p
                        (AList.update c (PInt 0)
                           (AList.update ''ir_created_at'' (getDateTimeNowUTC p 1)
                              (AList.update ''ir_updated_at'' (getDateTimeNowUTC p 0) d))) l) da dpid
                  @ write_back p l
                      (insertRepertoire p
                        (AList.update c (PInt 0)
                           (AList.update ''ir_created_at'' (getDateTimeNowUTC p 1)
                              (AList.update ''ir_updated_at'' (getDateTimeNowUTC p 0) d))) l) sa spid,
            msgs = ms\<rparr>)"
  using assms by (auto simp add: insert_branch_def Let_def)

lemma insert_branch_unmapped_count:
  assumes "recs = [] \<or> \<not> duplicate_loop da sa dpid spid recs True"
    and "getMapping p (getRearrangementCountField p) (getiReceptorTag p) (getRepositoryTag p) None
           = None"
  shows "insert_branch p d l r da sa rid dpid spid recs cs ms
           = \<lparr>ret = Inl NameError, calls = cs, msgs = ms\<rparr>"
  using assms by (auto simp add: insert_branch_def Let_def)

lemma insert_branch_success:
  assumes "ret (insert_branch p d l r da sa rid dpid spid recs cs ms) = Inr record_id"
    and "record_id \<noteq> PNone"
  shows "\<exists>c. getMapping p (getRearrangementCountField p) (getiReceptorTag p) (getRepositoryTag p) None
               = Some c \<and>
             insertRepertoire p
               (AList.update c (PInt 0)
                  (AList.update ''ir_created_at'' (getDateTimeNowUTC p 1)
                     (AList.update ''ir_updated_at'' (getDateTimeNowUTC p 0) d))) l = record_id \<and>
             calls (insert_branch p d l r da sa rid dpid spid recs cs ms) =
               cs @ [CallInsertRepertoire
                       (AList.update c (PInt 0)
                          (AList.update ''ir_created_at'' (getDateTimeNowUTC p 1)
                             (AList.update ''ir_updated_at'' (getDateTimeNowUTC p 0) d))) l]
                  @ write_back p l record_id r rid
                  @ write_back p l record_id da dpid
                  @ write_back p l record_id sa spid"
proof (cases "recs \<noteq> [] \<and> duplicate_loop da sa dpid spid recs True")
  case True
  then show ?thesis
    using insert_branch_duplicate[of recs da sa dpid spid p d l r rid cs ms] assms by auto
next
  case False
  then have nd: "recs = [] \<or> \<not> duplicate_loop da sa dpid spid recs True" by blast
  show ?thesis
  proof (cases "getMapping p (getRearrangementCountField p) (getiReceptorTag p)
                  (getRepositoryTag p) None")
    case None
    then show ?thesis using insert_branch_unmapped_count[OF nd None] assms by simp
  next
    case (Some c)
    show ?thesis
      using insert_branch_proceeds[OF nd Some, of d l r rid cs ms] assms Some
      by (auto split: if_splits)
  qed
qed

lemma resolve_and_write_success:
  assumes "\<not> updateOnly p"
    and "ret (resolve_and_write p d l cs ms) = Inr record_id"
    and "record_id \<noteq> PNone"
  shows "\<exists>c q. getMapping p (getRearrangementCountField p) (getiReceptorTag p) (getRepositoryTag p) None
               = Some c \<and> \<not> is_write q \<and>
             insertRepertoire p
               (AList.update c (PInt 0)
                  (AList.update ''ir_created_at'' (getDateTimeNowUTC p 1)
                     (AList.update ''ir_updated_at'' (getDateTimeNowUTC p 0) d))) l = record_id \<and>
             calls (resolve_and_write p d l cs ms) =
               (cs @ [q]) @ [CallInsertRepertoire
                       (AList.update c (PInt 0)
                          (AList.update ''ir_created_at'' (getDateTimeNowUTC p 1)
                             (AList.update ''ir_updated_at'' (getDateTimeNowUTC p 0) d))) l]
                  @ write_back p l record_id
                      (getMapping p ''repertoire_id'' (getAIRRTag p) (getRepositoryTag p)
                         (Some (getRepertoireClass p)))
                      (incoming_id d (getMapping p ''repertoire_id'' (getAIRRTag p)
                         (getRepositoryTag p) (Some (getRepertoireClass p))))
                  @ write_back p l record_id
                      (getMapping p ''data_processing_id'' (getAIRRTag p) (getRepositoryTag p)
                         (Some (getRepertoireClass p)))
                      (incoming_id d (getMapping p ''data_processing_id'' (getAIRRTag p)
                         (getRepositoryTag p) (Some (getRepertoireClass p))))
                  @ write_back p l record_id
                      (getMapping p ''sample_processing_id'' (getAIRRTag p) (getRepositoryTag p)
                         (Some (getRepertoireClass p)))
                      (incoming_id d (getMapping p ''sample_processing_id'' (getAIRRTag p)
                         (getRepositoryTag p) (Some (getRepertoireClass p))))"
proof -
  let ?r = "getMapping p ''repertoire_id'' (getAIRRTag p) (getRepositoryTag p)
                (Some (getRepertoireClass p))"
  let ?da = "getMapping p ''data_processing_id'' (getAIRRTag p) (getRepositoryTag p)
                (Some (getRepertoireClass p))"
  let ?sa = "getMapping p ''sample_processing_id'' (getAIRRTag p) (getRepositoryTag p)
                (Some (getRepertoireClass p))"
  let ?q = "CallRepositoryGetRepertoires ?r (incoming_id d ?r)"
  let ?recs = "repositoryGetRepertoires p ?r (incoming_id d ?r)"
  have mapped: "?r \<noteq> None"
    using assms(2,3) by (auto simp add: resolve_and_write_def Let_def split: if_splits)
  have eq: "resolve_and_write p d l cs ms =
        insert_branch p d l ?r ?da ?sa (incoming_id d ?r) (incoming_id d ?da) (incoming_id d ?sa)
          ?recs (cs @ [?q]) ms"
    using assms(1) mapped by (auto simp add: resolve_and_write_def Let_def)
  have "ret (insert_branch p d l ?r ?da ?sa (incoming_id d ?r) (incoming_id d ?da)
          (incoming_id d ?sa) ?recs (cs @ [?q]) ms) = Inr record_id"
    using assms(2) by (simp only: eq)
  from insert_branch_success[OF this assms(3)] obtain c where
    c: "getMapping p (getRearrangementCountField p) (getiReceptorTag p) (getRepositoryTag p) None
               = Some c"
       "insertRepertoire p
               (AList.update c (PInt 0)
                  (AList.update ''ir_created_at'' (getDateTimeNowUTC p 1)
                     (AList.update ''ir_updated_at'' (getDateTimeNowUTC p 0) d))) l = record_id"
       "calls (insert_branch p d l ?r ?da ?sa (incoming_id d ?r) (incoming_id d ?da)
          (incoming_id d ?sa) ?recs (cs @ [?q]) ms) =
               (cs @ [?q]) @ [CallInsertRepertoire
                       (AList.update c (PInt 0)
                          (AList.update ''ir_created_at'' (getDateTimeNowUTC p 1)
                             (AList.update ''ir_updated_at'' (getDateTimeNowUTC p 0) d))) l]
                  @ write_back p l record_id ?r (incoming_id d ?r)
                  @ write_back p l record_id ?da (incoming_id d ?da)
                  @ write_back p l record_id ?sa (incoming_id d ?sa)"
    by blast
  have w: "\<not> is_write ?q" by simp
  show ?thesis
    by (rule exI[of _ c], rule exI[of _ ?q]) (simp only: eq c w simp_thms)
qed

lemma repositoryInsertRepertoire_success:
  assumes "\<not> updateOnly p"
    and "ret (repositoryInsertRepertoire p d) = Inr record_id"
    and "record_id \<noteq> PNone"
  shows "\<exists>c cs0. getMapping p (getRearrangementCountField p) (getiReceptorTag p) (getRepositoryTag p) None
               = Some c \<and> \<not> list_ex is_write cs0 \<and>
             insertRepertoire p
               (AList.update c (PInt 0)
                  (AList.update ''ir_created_at'' (getDateTimeNowUTC p 1)
                     (AList.update ''ir_updated_at'' (getDateTimeNowUTC p 0) d)))
               (getMapping p (getRepertoireLinkIDField p) (getiReceptorTag p) (getRepositoryTag p) None)
               = record_id \<and>
             calls (repositoryInsertRepertoire p d) =
               cs0 @ [CallInsertRepertoire
                       (AList.update c (PInt 0)
                          (AList.update ''ir_created_at'' (getDateTimeNowUTC p 1)
                             (AList.update ''ir_updated_at'' (getDateTimeNowUTC p 0) d)))
                       (getMapping p (getRepertoireLinkIDField p) (getiReceptorTag p)
                          (getRepositoryTag p) None)]
                  @ write_back p (getMapping p (getRepertoireLinkIDField p) (getiReceptorTag p)
                          (getRepositoryTag p) None) record_id
                      (getMapping p ''repertoire_id'' (getAIRRTag p) (getRepositoryTag p)
                         (Some (getRepertoireClass p)))
                      (incoming_id d (getMapping p ''repertoire_id'' (getAIRRTag p)
                         (getRepositoryTag p) (Some (getRepertoireClass p))))
                  @ write_back p (getMapping p (getRepertoireLinkIDField p) (getiReceptorTag p)
                          (getRepositoryTag p) None) record_id
                      (getMapping p ''data_processing_id'' (getAIRRTag p) (getRepositoryTag p)
                         (Some (getRepertoireClass p)))
                      (incoming_id d (getMapping p ''data_processing_id'' (getAIRRTag p)
                         (getRepositoryTag p) (Some (getRepertoireClass p))))
                  @ write_back p (getMapping p (getRepertoireLinkIDField p) (getiReceptorTag p)
                          (getRepositoryTag p) None) record_id
                      (getMapping p ''sample_processing_id'' (getAIRRTag p) (getRepositoryTag p)
                         (Some (getRepertoireClass p)))
                      (incoming_id d (getMapping p ''sample_processing_id'' (getAIRRTag p)
                         (getRepositoryTag p) (Some (getRepertoireClass p))))"
proof -
  let ?l = "getMapping p (getRepertoireLinkIDField p) (getiReceptorTag p) (getRepositoryTag p) None"
  let ?f = "getMapping p (getRearrangementFileField p) (getiReceptorTag p) (getRepositoryTag p) None"
  have "\<exists>cs ms. \<not> list_ex is_write cs \<and>
          repositoryInsertRepertoire p d = resolve_and_write p d ?l cs ms"
  proof (cases "getitem d ?f")
    case (Inl e)
    then have "ret (repositoryInsertRepertoire p d) = Inl e"
      by (simp add: repositoryInsertRepertoire_def)
    then show ?thesis using assms(2) by simp
  next
    case (Inr file_names)
    show ?thesis
    proof (cases "file_names = PNone \<or> py_eq file_names (PStr [])")
      case True
      then have "repositoryInsertRepertoire p d =
                   resolve_and_write p d ?l [] [WarnNoRearrangementFiles]"
        using Inr assms(1) by (simp add: repositoryInsertRepertoire_def Let_def)
      moreover have "\<not> list_ex is_write []" by simp
      ultimately show ?thesis by blast
    next
      case False
      show ?thesis
      proof (cases "repositoryGetRepertoireIDs p ?f file_names")
        case None
        then have "ret (repositoryInsertRepertoire p d) = Inr PNone"
          using Inr False by (simp add: repositoryInsertRepertoire_def Let_def)
        then show ?thesis using assms(2,3) by simp
      next
        case (Some ids)
        show ?thesis
        proof (cases "ids = []")
          case True
          then have "repositoryInsertRepertoire p d =
                   resolve_and_write p d ?l [CallRepositoryGetRepertoireIDs ?f file_names] []"
            using Inr False Some assms(1) by (simp add: repositoryInsertRepertoire_def Let_def)
          moreover have "\<not> list_ex is_write [CallRepositoryGetRepertoireIDs ?f file_names]" by simp
          ultimately show ?thesis by blast
        next
          case ne: False
          then have "ret (repositoryInsertRepertoire p d) = Inr PNone"
            using Inr False Some assms(1) by (simp add: repositoryInsertRepertoire_def Let_def)
          then show ?thesis using assms(2,3) by simp
        qed
      qed
    qed
  qed
  then obtain cs ms where cs: "\<not> list_ex is_write cs"
      "repositoryInsertRepertoire p d = resolve_and_write p d ?l cs ms"
    by blast
  have "ret (resolve_and_write p d ?l cs ms) = Inr record_id"
    using assms(2) by (simp only: cs(2))
  from resolve_and_write_success[OF assms(1) this assms(3)] obtain c q where
    c: "getMapping p (getRearrangementCountField p) (getiReceptorTag p) (getRepositoryTag p) None
               = Some c" "\<not> is_write q"
       "insertRepertoire p
               (AList.update c (PInt 0)
                  (AList.update ''ir_created_at'' (getDateTimeNowUTC p 1)
                     (AList.update ''ir_updated_at'' (getDateTimeNowUTC p 0) d))) ?l = record_id"
       "calls (resolve_and_write p d ?l cs ms) =
               (cs @ [q]) @ [CallInsertRepertoire
                       (AList.update c (PInt 0)
                          (AList.update ''ir_created_at'' (getDateTimeNowUTC p 1)
                             (AList.update ''ir_updated_at'' (getDateTimeNowUTC p 0) d))) ?l]
                  @ write_back p ?l record_id
                      (getMapping p ''repertoire_id'' (getAIRRTag p) (getRepositoryTag p)
                         (Some (getRepertoireClass p)))
                      (incoming_id d (getMapping p ''repertoire_id'' (getAIRRTag p)
                         (getRepositoryTag p) (Some (getRepertoireClass p))))
                  @ write_back p ?l record_id
                      (getMapping p ''data_processing_id'' (getAIRRTag p) (getRepositoryTag p)
                         (Some (getRepertoireClass p)))
                      (incoming_id d (getMapping p ''data_processing_id'' (getAIRRTag p)
                         (getRepositoryTag p) (Some (getRepertoireClass p))))
                  @ write_back p ?l record_id
                      (getMapping p ''sample_processing_id'' (getAIRRTag p) (getRepositoryTag p)
                         (Some (getRepertoireClass p)))
                      (incoming_id d (getMapping p ''sample_processing_id'' (getAIRRTag p)
                         (getRepositoryTag p) (Some (getRepertoireClass p))))"
    by blast
  have w: "\<not> list_ex is_write (cs @ [q])" using cs(1) c(2) by simp
  show ?thesis
    by (rule exI[of _ c], rule exI[of _ "cs @ [q]"]) (simp only: cs(2) c w simp_thms)
qed


section \<open>Properties of the repertoire insert: the write-back of the identifiers\<close>

lemma py_eq_str: "py_eq v (PStr s) = (v = PStr s)"
  by (cases v) auto

lemma holds_Some: "holds d (Some l) v = (map_of d l = Some v)"
  by (simp add: holds_def getitem_def split: option.splits)

lemma incoming_id_Some:
  "incoming_id d (Some f) =
     (case map_of d f of None \<Rightarrow> PNone | Some v \<Rightarrow> if v = PStr [] then PNone else v)"
  by (simp add: incoming_id_def key_in_def getitem_def py_eq_str split: option.splits)

lemma nonempty_id_Some:
  "nonempty_id d (Some f) = (\<exists>v. map_of d f = Some v \<and> v \<noteq> PNone \<and> v \<noteq> PStr [])"
  by (simp add: nonempty_id_def getitem_def split: option.splits)

lemma map_of_written_back:
  "map_of (written_back l rid f v x d) k =
     (if x = PNone \<and> map_of d l = Some rid \<and> k = f then Some v else map_of d k)"
  by (simp add: written_back_def holds_Some put_def update_conv')

lemma commit_calls_append:
  "commit_calls p (cs @ cs') store = commit_calls p cs' (commit_calls p cs store)"
  by (induction cs arbitrary: store) simp_all

lemma commit_reads: "\<not> list_ex is_write cs \<Longrightarrow> commit_calls p cs store = store"
proof (induction cs arbitrary: store)
  case Nil
  then show ?case by simp
next
  case (Cons c cs)
  then have "\<not> is_write c" and rest: "\<not> list_ex is_write cs" by simp_all
  then have "commit_call p c store = store" by (cases c) simp_all
  then show ?case using Cons.IH[OF rest] by simp
qed

lemma commit_write_back:
  "commit_calls p (write_back p (Some l) rid (Some f) x) store =
     map (written_back l rid f (PStr (py_str p rid)) x) store"
  by (simp add: write_back_def written_back_def map_idI)


text \<open>
  Claim C4. Take a successful insert: insert mode, and \<open>repositoryInsertRepertoire\<close>
  returns an identifier. The link field, the three identifier fields and the count
  field are mapped, the identifier fields are columns of their own (none of them is the
  link field, the count field or a time stamp), and the identifier does not print as
  the empty string. Then, for each identifier field that the document lacks or gives as
  the empty string, the function calls \<open>updateField\<close> on the record with the new
  identifier to set that field to the string of the identifier. On the stored records
  this means: exactly one record is added; in it each of the three fields holds the
  incoming value, or the string of the new identifier where the incoming value was
  missing, so all three are non-empty; and if all three were non-empty in every record
  stored before, they are so in every record afterwards.
\<close>

theorem repositoryInsertRepertoire_write_back:
  assumes mode: "\<not> updateOnly p"
    and ok: "ret (repositoryInsertRepertoire p json_document) = Inr record_id"
    and some: "record_id \<noteq> PNone"
    and link: "getMapping p (getRepertoireLinkIDField p) (getiReceptorTag p) (getRepositoryTag p) None
                 = Some l"
    and rep: "getMapping p ''repertoire_id'' (getAIRRTag p) (getRepositoryTag p)
                (Some (getRepertoireClass p)) = Some rk"
    and dat: "getMapping p ''data_processing_id'' (getAIRRTag p) (getRepositoryTag p)
                (Some (getRepertoireClass p)) = Some dk"
    and sam: "getMapping p ''sample_processing_id'' (getAIRRTag p) (getRepositoryTag p)
                (Some (getRepertoireClass p)) = Some sk"
    and cnt: "getMapping p (getRearrangementCountField p) (getiReceptorTag p) (getRepositoryTag p) None
                = Some c"
    and other: "{rk, dk, sk} \<inter> {l, c, ''ir_updated_at'', ''ir_created_at''} = {}"
    and str: "py_str p record_id \<noteq> []"
  shows "(\<forall>f \<in> {rk, dk, sk}.
            map_of json_document f = None \<or> map_of json_document f = Some (PStr []) \<longrightarrow>
            CallUpdateField (Some l) record_id (Some f) (PStr (py_str p record_id))
              \<in> set (calls (repositoryInsertRepertoire p json_document)))
       \<and> (let store' = commit_calls p (calls (repositoryInsertRepertoire p json_document)) store
          in length store' = Suc (length store) \<and>
             (\<forall>f \<in> {rk, dk, sk}.
                map_of (last store') f =
                  Some (if incoming_id json_document (Some f) = PNone
                        then PStr (py_str p record_id)
                        else incoming_id json_document (Some f))) \<and>
             (\<forall>f \<in> {rk, dk, sk}. nonempty_id (last store') (Some f)) \<and>
             ((\<forall>d \<in> set store. \<forall>f \<in> {rk, dk, sk}. nonempty_id d (Some f)) \<longrightarrow>
              (\<forall>d \<in> set store'. \<forall>f \<in> {rk, dk, sk}. nonempty_id d (Some f))))"
proof -
  let ?doc3 = "AList.update c (PInt 0)
                 (AList.update ''ir_created_at'' (getDateTimeNowUTC p 1)
                    (AList.update ''ir_updated_at'' (getDateTimeNowUTC p 0) json_document))"
  let ?s = "PStr (py_str p record_id)"
  let ?ri = "incoming_id json_document (Some rk)"
  let ?di = "incoming_id json_document (Some dk)"
  let ?si = "incoming_id json_document (Some sk)"
  from repositoryInsertRepertoire_success[OF mode ok some]
  obtain cs0 where reads: "\<not> list_ex is_write cs0"
    and ins: "insertRepertoire p ?doc3 (Some l) = record_id"
    and cs: "calls (repositoryInsertRepertoire p json_document) =
               cs0 @ [CallInsertRepertoire ?doc3 (Some l)]
                  @ write_back p (Some l) record_id (Some rk) ?ri
                  @ write_back p (Some l) record_id (Some dk) ?di
                  @ write_back p (Some l) record_id (Some sk) ?si"
    unfolding link rep dat sam cnt by auto
  have none: "\<And>f. map_of json_document f = None \<or> map_of json_document f = Some (PStr []) \<Longrightarrow>
                incoming_id json_document (Some f) = PNone"
    by (auto simp add: incoming_id_Some)
  have part_a: "\<forall>f \<in> {rk, dk, sk}.
            map_of json_document f = None \<or> map_of json_document f = Some (PStr []) \<longrightarrow>
            CallUpdateField (Some l) record_id (Some f) ?s
              \<in> set (calls (repositoryInsertRepertoire p json_document))"
    using none by (auto simp add: cs write_back_def)
  let ?new = "AList.update l record_id ?doc3"
  let ?W = "\<lambda>d. written_back l record_id sk ?s ?si
                  (written_back l record_id dk ?s ?di
                     (written_back l record_id rk ?s ?ri d))"
  have store': "commit_calls p (calls (repositoryInsertRepertoire p json_document)) store
                  = map ?W (store @ [?new])"
  proof -
    have step: "commit_call p (CallInsertRepertoire ?doc3 (Some l)) store = store @ [?new]"
      unfolding commit_call.simps ins using some by (simp add: put_def)
    have "commit_calls p (calls (repositoryInsertRepertoire p json_document)) store =
            map (written_back l record_id sk ?s ?si)
              (map (written_back l record_id dk ?s ?di)
                 (map (written_back l record_id rk ?s ?ri) (store @ [?new])))"
      by (simp only: cs commit_calls_append commit_reads[OF reads] commit_write_back
            commit_calls.simps step)
    then show ?thesis by simp
  qed
  have ne: "rk \<noteq> l" "dk \<noteq> l" "sk \<noteq> l" "rk \<noteq> c" "dk \<noteq> c" "sk \<noteq> c"
      "rk \<noteq> ''ir_updated_at''" "dk \<noteq> ''ir_updated_at''" "sk \<noteq> ''ir_updated_at''"
      "rk \<noteq> ''ir_created_at''" "dk \<noteq> ''ir_created_at''" "sk \<noteq> ''ir_created_at''"
    using other by auto
  have new_l: "map_of ?new l = Some record_id" by (simp add: update_conv')
  have new_f: "\<And>f. f \<in> {rk, dk, sk} \<Longrightarrow> map_of ?new f = map_of json_document f"
    using ne by (auto simp add: update_conv')
  have inc: "\<And>f. incoming_id json_document (Some f) \<noteq> PNone \<Longrightarrow>
               map_of json_document f = Some (incoming_id json_document (Some f))"
    by (auto simp add: incoming_id_Some split: option.splits if_splits)
  have last_f: "\<forall>f \<in> {rk, dk, sk}.
                map_of (?W ?new) f =
                  Some (if incoming_id json_document (Some f) = PNone then ?s
                        else incoming_id json_document (Some f))"
    using ne new_l new_f inc by (auto simp add: map_of_written_back)
  have inc_ne: "\<And>f. incoming_id json_document (Some f) \<noteq> PStr []"
    by (auto simp add: incoming_id_Some split: option.splits)
  have last_ne: "\<forall>f \<in> {rk, dk, sk}. nonempty_id (?W ?new) (Some f)"
    using last_f str inc_ne by (auto simp add: nonempty_id_Some)
  have keep: "\<And>d. (\<forall>f \<in> {rk, dk, sk}. nonempty_id d (Some f)) \<Longrightarrow>
                (\<forall>f \<in> {rk, dk, sk}. nonempty_id (?W d) (Some f))"
    using str by (auto simp add: nonempty_id_Some map_of_written_back)
  have part_b: "let store' = commit_calls p (calls (repositoryInsertRepertoire p json_document)) store
          in length store' = Suc (length store) \<and>
             (\<forall>f \<in> {rk, dk, sk}.
                map_of (last store') f =
                  Some (if incoming_id json_document (Some f) = PNone then ?s
                        else incoming_id json_document (Some f))) \<and>
             (\<forall>f \<in> {rk, dk, sk}. nonempty_id (last store') (Some f)) \<and>
             ((\<forall>d \<in> set store. \<forall>f \<in> {rk, dk, sk}. nonempty_id d (Some f)) \<longrightarrow>
              (\<forall>d \<in> set store'. \<forall>f \<in> {rk, dk, sk}. nonempty_id d (Some f)))"
    unfolding store' Let_def
  proof (intro conjI impI)
    show "length (map ?W (store @ [?new])) = Suc (length store)" by simp
    show "\<forall>f \<in> {rk, dk, sk}.
            map_of (last (map ?W (store @ [?new]))) f =
              Some (if incoming_id json_document (Some f) = PNone then ?s
                    else incoming_id json_document (Some f))"
      using last_f by simp
    show "\<forall>f \<in> {rk, dk, sk}. nonempty_id (last (map ?W (store @ [?new]))) (Some f)"
      using last_ne by simp
    assume inv: "\<forall>d \<in> set store. \<forall>f \<in> {rk, dk, sk}. nonempty_id d (Some f)"
    show "\<forall>d \<in> set (map ?W (store @ [?new])). \<forall>f \<in> {rk, dk, sk}. nonempty_id d (Some f)"
    proof
      fix d assume "d \<in> set (map ?W (store @ [?new]))"
      then obtain d0 where d0: "d = ?W d0" "d0 \<in> set store \<or> d0 = ?new" by auto
      show "\<forall>f \<in> {rk, dk, sk}. nonempty_id d (Some f)"
      proof (cases "d0 = ?new")
        case True
        then show ?thesis using last_ne d0(1) by simp
      next
        case False
        then have "d0 \<in> set store" using d0(2) by simp
        then have "\<forall>f \<in> {rk, dk, sk}. nonempty_id d0 (Some f)" using inv by blast
        from keep[OF this] show ?thesis using d0(1) by simp
      qed
    qed
  qed
  show ?thesis using part_a part_b by blast
qed


text \<open>
  The theorem at a document with a \<open>repertoire_id\<close> and no processing identifiers,
  inserted into a repository that holds one record.
\<close>

theorem repositoryInsertRepertoire_write_back_witness:
  "CallUpdateField (Some ''_id'') (PObj 7) (Some ''sample_processing_id'') (PStr ''7'')
     \<in> set (calls (repositoryInsertRepertoire ex_parser ex_doc_no_files))
   \<and> (let store' = commit_calls ex_parser
                      (calls (repositoryInsertRepertoire ex_parser ex_doc_no_files)) [rec_R1_D1_S1]
      in length store' = 2
         \<and> map_of (last store') ''repertoire_id'' = Some (PStr ''R9'')
         \<and> map_of (last store') ''data_processing_id'' = Some (PStr ''7'')
         \<and> nonempty_id (last store') (Some ''sample_processing_id'')
         \<and> (\<forall>d \<in> set store'. nonempty_id d (Some ''repertoire_id'')))"
proof -
  have mode: "\<not> updateOnly ex_parser" by (simp add: ex_parser_def)
  have ok: "ret (repositoryInsertRepertoire ex_parser ex_doc_no_files) = Inr (PObj 7)"
    by (simp add: ex_no_files_run)
  have some: "PObj 7 \<noteq> PNone" by simp
  have link: "getMapping ex_parser (getRepertoireLinkIDField ex_parser) (getiReceptorTag ex_parser)
                (getRepositoryTag ex_parser) None = Some ''_id''"
    by (simp add: ex_parser_def ex_mapping_def)
  have rep: "getMapping ex_parser ''repertoire_id'' (getAIRRTag ex_parser) (getRepositoryTag ex_parser)
                (Some (getRepertoireClass ex_parser)) = Some ''repertoire_id''"
    by (simp add: ex_parser_def ex_mapping_def)
  have dat: "getMapping ex_parser ''data_processing_id'' (getAIRRTag ex_parser)
                (getRepositoryTag ex_parser) (Some (getRepertoireClass ex_parser))
               = Some ''data_processing_id''"
    by (simp add: ex_parser_def ex_mapping_def)
  have sam: "getMapping ex_parser ''sample_processing_id'' (getAIRRTag ex_parser)
                (getRepositoryTag ex_parser) (Some (getRepertoireClass ex_parser))
               = Some ''sample_processing_id''"
    by (simp add: ex_parser_def ex_mapping_def)
  have cnt: "getMapping ex_parser (getRearrangementCountField ex_parser) (getiReceptorTag ex_parser)
                (getRepositoryTag ex_parser) None = Some ''count''"
    by (simp add: ex_parser_def ex_mapping_def)
  have other: "{''repertoire_id'', ''data_processing_id'', ''sample_processing_id''}
                 \<inter> {''_id'', ''count'', ''ir_updated_at'', ''ir_created_at''} = {}"
    by simp
  have str: "py_str ex_parser (PObj 7) \<noteq> []" by (simp add: ex_parser_def)
  have s7: "py_str ex_parser (PObj 7) = ''7''" by (simp add: ex_parser_def)
  have inc: "incoming_id ex_doc_no_files (Some ''repertoire_id'') = PStr ''R9''"
      "incoming_id ex_doc_no_files (Some ''data_processing_id'') = PNone"
    by (simp_all add: incoming_id_def key_in_def getitem_def ex_doc_no_files_def)
  have absent: "map_of ex_doc_no_files ''sample_processing_id'' = None"
    by (simp add: ex_doc_no_files_def)
  have old: "\<forall>d \<in> set [rec_R1_D1_S1].
               \<forall>f \<in> {''repertoire_id'', ''data_processing_id'', ''sample_processing_id''}.
                 nonempty_id d (Some f)"
    by (simp add: nonempty_id_def getitem_def rec_R1_D1_S1_def)
  note t = repositoryInsertRepertoire_write_back[OF mode ok some link rep dat sam cnt other str,
             of "[rec_R1_D1_S1]", unfolded Let_def s7]
  have a: "CallUpdateField (Some ''_id'') (PObj 7) (Some ''sample_processing_id'') (PStr ''7'')
             \<in> set (calls (repositoryInsertRepertoire ex_parser ex_doc_no_files))"
    using t[THEN conjunct1] absent by blast
  note b = t[THEN conjunct2]
  have b1: "length (commit_calls ex_parser
                      (calls (repositoryInsertRepertoire ex_parser ex_doc_no_files)) [rec_R1_D1_S1]) = 2"
    using b[THEN conjunct1] by simp
  have b2: "map_of (last (commit_calls ex_parser
                      (calls (repositoryInsertRepertoire ex_parser ex_doc_no_files)) [rec_R1_D1_S1]))
              ''repertoire_id'' = Some (PStr ''R9'')"
    using b[THEN conjunct2, THEN conjunct1] inc(1) by simp
  have b3: "map_of (last (commit_calls ex_parser
                      (calls (repositoryInsertRepertoire ex_parser ex_doc_no_files)) [rec_R1_D1_S1]))
              ''data_processing_id'' = Some (PStr ''7'')"
    using b[THEN conjunct2, THEN conjunct1] inc(2) by simp
  have b4: "nonempty_id (last (commit_calls ex_parser
                      (calls (repositoryInsertRepertoire ex_parser ex_doc_no_files)) [rec_R1_D1_S1]))
              (Some ''sample_processing_id'')"
    using b[THEN conjunct2, THEN conjunct2, THEN conjunct1] by simp
  have b5: "\<forall>d \<in> set (commit_calls ex_parser
                      (calls (repositoryInsertRepertoire ex_parser ex_doc_no_files)) [rec_R1_D1_S1]).
              nonempty_id d (Some ''repertoire_id'')"
    using b[THEN conjunct2, THEN conjunct2, THEN conjunct2, THEN mp, OF old] by simp
  show ?thesis unfolding Let_def using a b1 b2 b3 b4 b5 by (intro conjI)
qed

section \<open>Properties of the repertoire insert: uniqueness in insert mode\<close>

text \<open>
  The loop leaves \<open>duplicate\<close> set exactly when no record differs from the incoming
  document on a processing identifier. When every record found stores the three
  identifier fields and the count field is mapped, the function returns \<open>None\<close> without
  an insert exactly in that case, and inserts otherwise.
\<close>

lemma duplicate_loop_iff:
  "duplicate_loop da sa dpid spid recs dup =
     (dup \<and> (\<forall>rec \<in> set recs. \<not> differs_on da dpid rec \<and> \<not> differs_on sa spid rec))"
  by (induction recs arbitrary: dup) auto

lemma insert_branch_uniqueness:
  assumes "recs \<noteq> []"
    and "\<forall>rec \<in> set recs. key_in r rec \<and> key_in da rec \<and> key_in sa rec"
    and "getMapping p (getRearrangementCountField p) (getiReceptorTag p) (getRepositoryTag p) None
           = Some c"
    and "\<not> list_ex is_insert cs"
  shows "(ret (insert_branch p d l r da sa rid dpid spid recs cs ms) = Inr PNone \<and>
          \<not> list_ex is_insert (calls (insert_branch p d l r da sa rid dpid spid recs cs ms)))
         = (\<forall>rec \<in> set recs. \<not> differs_on da dpid rec \<and> \<not> differs_on sa spid rec)"
proof (cases "duplicate_loop da sa dpid spid recs True")
  case True
  have lastin: "last recs \<in> set recs" using assms(1) by simp
  then have k: "key_in r (last recs)" "key_in da (last recs)" "key_in sa (last recs)"
    using assms(2) by blast+
  obtain vr vd vs where g: "getitem (last recs) r = Inr vr" "getitem (last recs) da = Inr vd"
      "getitem (last recs) sa = Inr vs"
    using k by (auto simp add: key_in_def getitem_def split: option.splits)
  have "insert_branch p d l r da sa rid dpid spid recs cs ms =
          \<lparr>ret = Inr PNone, calls = cs,
           msgs = ms @ [ErrCannotConfirmUniqueness rid dpid spid]\<rparr>"
    using True assms(1) g by (simp add: insert_branch_def Let_def)
  then show ?thesis using True assms(4) by (simp add: duplicate_loop_iff)
next
  case False
  then have nd: "recs = [] \<or> \<not> duplicate_loop da sa dpid spid recs True" by simp
  have "list_ex is_insert (calls (insert_branch p d l r da sa rid dpid spid recs cs ms))"
    using False assms(3) by (simp add: insert_branch_def Let_def)
  then show ?thesis using False by (simp add: duplicate_loop_iff)
qed

lemma repositoryInsertRepertoire_uniqueness_when_fields_stored:
  assumes "\<not> updateOnly p"
    and "getitem json_document
           (getMapping p (getRearrangementFileField p) (getiReceptorTag p) (getRepositoryTag p) None)
         = Inr file_names"
    and "file_names = PNone \<or> py_eq file_names (PStr []) \<or>
         repositoryGetRepertoireIDs p
           (getMapping p (getRearrangementFileField p) (getiReceptorTag p) (getRepositoryTag p) None)
           file_names = Some []"
    and "getMapping p ''repertoire_id'' (getAIRRTag p) (getRepositoryTag p)
           (Some (getRepertoireClass p)) = Some rk"
    and "getMapping p ''data_processing_id'' (getAIRRTag p) (getRepositoryTag p)
           (Some (getRepertoireClass p)) = da"
    and "getMapping p ''sample_processing_id'' (getAIRRTag p) (getRepositoryTag p)
           (Some (getRepertoireClass p)) = sa"
    and "getMapping p (getRearrangementCountField p) (getiReceptorTag p) (getRepositoryTag p) None
           = Some c"
    and "S = repositoryGetRepertoires p (Some rk) (incoming_id json_document (Some rk))"
    and "S \<noteq> []"
    and "\<forall>rec \<in> set S. key_in (Some rk) rec \<and> key_in da rec \<and> key_in sa rec"
  shows "(ret (repositoryInsertRepertoire p json_document) = Inr PNone \<and>
          \<not> list_ex is_insert (calls (repositoryInsertRepertoire p json_document)))
         = (\<forall>rec \<in> set S. \<not> differs_on da (incoming_id json_document da) rec \<and>
                            \<not> differs_on sa (incoming_id json_document sa) rec)"
proof -
  let ?f = "getMapping p (getRearrangementFileField p) (getiReceptorTag p) (getRepositoryTag p) None"
  let ?l = "getMapping p (getRepertoireLinkIDField p) (getiReceptorTag p) (getRepositoryTag p) None"
  obtain cs ms where cs: "\<not> list_ex is_insert cs"
      "repositoryInsertRepertoire p json_document = resolve_and_write p json_document ?l cs ms"
  proof (cases "file_names = PNone \<or> py_eq file_names (PStr [])")
    case True
    then have "repositoryInsertRepertoire p json_document =
                 resolve_and_write p json_document ?l [] [WarnNoRearrangementFiles]"
      using assms(1,2) by (simp add: repositoryInsertRepertoire_def Let_def)
    moreover have "\<not> list_ex is_insert []" by simp
    ultimately show ?thesis using that by blast
  next
    case False
    then have "repositoryGetRepertoireIDs p ?f file_names = Some []" using assms(3) by blast
    then have "repositoryInsertRepertoire p json_document =
                 resolve_and_write p json_document ?l
                   [CallRepositoryGetRepertoireIDs ?f file_names] []"
      using False assms(1,2) by (simp add: repositoryInsertRepertoire_def Let_def)
    moreover have "\<not> list_ex is_insert [CallRepositoryGetRepertoireIDs ?f file_names]" by simp
    ultimately show ?thesis using that by blast
  qed
  let ?q = "CallRepositoryGetRepertoires (Some rk) (incoming_id json_document (Some rk))"
  have rw: "resolve_and_write p json_document ?l cs ms =
          insert_branch p json_document ?l (Some rk) da sa (incoming_id json_document (Some rk))
            (incoming_id json_document da) (incoming_id json_document sa) S (cs @ [?q]) ms"
    using assms(1,4,5,6,8) by (simp add: resolve_and_write_def Let_def)
  have noins: "\<not> list_ex is_insert (cs @ [?q])" using cs(1) by simp
  show ?thesis
    unfolding cs(2) rw
    by (rule insert_branch_uniqueness[OF assms(9) assms(10) assms(7) noins])
qed

text \<open>
  Claim C2. The claim asks for \<open>None\<close> whenever no stored record can be told from the
  incoming document. The code does not return it when the last record found lacks one
  of the three identifier fields: the error message reads the field and raises
  \<open>KeyError\<close>. Here the repository holds one record with \<open>repertoire_id\<close> R1 and
  \<open>data_processing_id\<close> D1 and no \<open>sample_processing_id\<close>, and the incoming document has
  \<open>repertoire_id\<close> R1 and no processing identifier. No record is distinguishable, no
  insert is made, and the function ends in \<open>KeyError\<close>, not in \<open>None\<close>.
\<close>

theorem repositoryInsertRepertoire_duplicate_message_raises:
  "repositoryInsertRepertoire (ex_parser\<lparr>repositoryGetRepertoires := (\<lambda>f v. [rec_R1_D1])\<rparr>) ex_doc_R1 =
     \<lparr>ret = Inl KeyError,
      calls = [CallRepositoryGetRepertoireIDs (Some ''files'') (PStr ''a.tsv''),
               CallRepositoryGetRepertoires (Some ''repertoire_id'') (PStr ''R1'')],
      msgs = [ErrCannotConfirmUniqueness (PStr ''R1'') PNone PNone]\<rparr>"
  by (simp add: repositoryInsertRepertoire_def resolve_and_write_def insert_branch_def
        differs_on_def ex_parser_def ex_mapping_def ex_doc_R1_def rec_R1_D1_def getitem_def
        key_in_def incoming_id_def Let_def)

text \<open>
  The examples of the specification on records that store all fields: a different
  \<open>data_processing_id\<close> is inserted, a missing one is a duplicate.
\<close>

lemma ex_distinguishable_is_inserted:
  "repositoryInsertRepertoire (ex_parser\<lparr>repositoryGetRepertoires := (\<lambda>f v. [rec_R1_D1])\<rparr>) ex_doc_R1_D2 =
     \<lparr>ret = Inr (PObj 7),
      calls = [CallRepositoryGetRepertoireIDs (Some ''files'') (PStr ''a.tsv''),
               CallRepositoryGetRepertoires (Some ''repertoire_id'') (PStr ''R1''),
               CallInsertRepertoire
                 [(''files'', PStr ''a.tsv''), (''repertoire_id'', PStr ''R1''),
                  (''data_processing_id'', PStr ''D2''), (''ir_updated_at'', PStr ''now''),
                  (''ir_created_at'', PStr ''now''), (''count'', PInt 0)] (Some ''_id''),
               CallUpdateField (Some ''_id'') (PObj 7) (Some ''sample_processing_id'') (PStr ''7'')],
      msgs = []\<rparr>"
  by (simp add: repositoryInsertRepertoire_def resolve_and_write_def insert_branch_def
        differs_on_def write_back_def ex_parser_def ex_mapping_def ex_doc_R1_D2_def rec_R1_D1_def
        getitem_def key_in_def incoming_id_def Let_def)

lemma ex_duplicate_with_fields_fails:
  "repositoryInsertRepertoire (ex_parser\<lparr>repositoryGetRepertoires := (\<lambda>f v. [rec_R1_D1_S1])\<rparr>) ex_doc_R1 =
     \<lparr>ret = Inr PNone,
      calls = [CallRepositoryGetRepertoireIDs (Some ''files'') (PStr ''a.tsv''),
               CallRepositoryGetRepertoires (Some ''repertoire_id'') (PStr ''R1'')],
      msgs = [ErrCannotConfirmUniqueness (PStr ''R1'') PNone PNone]\<rparr>"
  by (simp add: repositoryInsertRepertoire_def resolve_and_write_def insert_branch_def
        differs_on_def ex_parser_def ex_mapping_def ex_doc_R1_def rec_R1_D1_S1_def getitem_def
        key_in_def incoming_id_def Let_def)


section \<open>Properties of the repertoire insert: the update target\<close>

text \<open>
  With no record of the \<open>repertoire_id\<close> the update fails without a write. With several
  records of which none has the incoming triple, the loop ends with
  \<open>link_repository_value\<close> still \<open>None\<close>, and the update is issued with it.
\<close>

lemma update_target_loop_no_match:
  assumes "\<forall>rec \<in> set recs. \<exists>s d r'.
             getitem rec sa = Inr s \<and> getitem rec da = Inr d \<and> getitem rec r = Inr r' \<and>
             \<not> (py_eq s spid \<and> py_eq d dpid \<and> py_eq r' rid)"
  shows "update_target_loop l r da sa rid dpid spid recs lv = Inr (Some lv)"
  using assms
proof (induction recs)
  case Nil
  then show ?case by simp
next
  case (Cons rec recs)
  then obtain s d r' where g: "getitem rec sa = Inr s" "getitem rec da = Inr d"
      "getitem rec r = Inr r'" "\<not> (py_eq s spid \<and> py_eq d dpid \<and> py_eq r' rid)"
    by auto
  have rest: "update_target_loop l r da sa rid dpid spid recs lv = Inr (Some lv)"
    using Cons by simp
  show ?case using g rest by auto
qed

lemma update_branch_not_found:
  "update_branch p d l r da sa rid dpid spid [] cs ms =
     \<lparr>ret = Inr PNone, calls = cs, msgs = ms @ [ErrRepertoireNotFound rid]\<rparr>"
  by (simp add: update_branch_def)

lemma update_branch_no_match:
  assumes "length recs > 1"
    and "\<forall>rec \<in> set recs. \<exists>s d r'.
             getitem rec sa = Inr s \<and> getitem rec da = Inr d \<and> getitem rec r = Inr r' \<and>
             \<not> (py_eq s spid \<and> py_eq d dpid \<and> py_eq r' rid)"
  shows "update_branch p d l r da sa rid dpid spid recs cs ms =
     \<lparr>ret = Inr (updateRepertoire p l PNone
                   (AList.update ''ir_updated_at'' (getDateTimeNowUTC p 0) d)),
      calls = cs @ [CallUpdateRepertoire l PNone
                      (AList.update ''ir_updated_at'' (getDateTimeNowUTC p 0) d)],
      msgs = ms\<rparr>"
proof -
  have n0: "recs \<noteq> []" using assms(1) by (cases recs) simp_all
  have n1: "length recs \<noteq> Suc 0" using assms(1) by simp
  show ?thesis
    using n0 n1 update_target_loop_no_match[OF assms(2), of l PNone]
    by (simp add: update_branch_def Let_def)
qed

text \<open>
  Claim C3. The claim asks for \<open>None\<close> and no update when several records share the
  \<open>repertoire_id\<close> and none has the incoming triple. Here the repository holds the
  records (R1, D1, S1) and (R1, D2, S1) and the incoming document has (R1, D3, S1) in
  update mode: whatever the driver \<open>upd\<close> does, the code calls it with the link value
  \<open>None\<close> and returns its result.
\<close>

theorem repositoryInsertRepertoire_update_without_match:
  "\<forall>upd. repositoryInsertRepertoire
            (ex_parser\<lparr>updateOnly := True,
                        repositoryGetRepertoires := (\<lambda>f v. [rec_R1_D1_S1, rec_R1_D2_S1]),
                        updateRepertoire := upd\<rparr>) ex_doc_R1_D3_S1 =
     \<lparr>ret = Inr (upd (Some ''_id'') PNone
                   [(''files'', PStr ''a.tsv''), (''repertoire_id'', PStr ''R1''),
                    (''data_processing_id'', PStr ''D3''), (''sample_processing_id'', PStr ''S1''),
                    (''ir_updated_at'', PStr ''now'')]),
      calls = [CallRepositoryGetRepertoireIDs (Some ''files'') (PStr ''a.tsv''),
               CallRepositoryGetRepertoires (Some ''repertoire_id'') (PStr ''R1''),
               CallUpdateRepertoire (Some ''_id'') PNone
                 [(''files'', PStr ''a.tsv''), (''repertoire_id'', PStr ''R1''),
                  (''data_processing_id'', PStr ''D3''), (''sample_processing_id'', PStr ''S1''),
                  (''ir_updated_at'', PStr ''now'')]],
      msgs = []\<rparr>"
  by (simp add: repositoryInsertRepertoire_def resolve_and_write_def update_branch_def
        ex_parser_def ex_mapping_def ex_doc_R1_D3_S1_def rec_R1_D1_S1_def rec_R1_D2_S1_def
        getitem_def key_in_def incoming_id_def Let_def)

text \<open>
  On the same repository a second record with the incoming triple makes the update
  fail, and a single one becomes the target.
\<close>

lemma ex_update_two_matches_fails:
  "repositoryInsertRepertoire
     (ex_parser\<lparr>updateOnly := True,
                 repositoryGetRepertoires := (\<lambda>f v. [rec_R1_D2_S1, rec_R1_D1_S1, rec_R1_D2_S1])\<rparr>)
     (AList.update ''data_processing_id'' (PStr ''D2'') ex_doc_R1_D3_S1) =
     \<lparr>ret = Inr PNone,
      calls = [CallRepositoryGetRepertoireIDs (Some ''files'') (PStr ''a.tsv''),
               CallRepositoryGetRepertoires (Some ''repertoire_id'') (PStr ''R1'')],
      msgs = [ErrMoreThanOneRepertoire (PStr ''R1'') (PStr ''S1'') (PStr ''D2'')]\<rparr>"
  by (simp add: repositoryInsertRepertoire_def resolve_and_write_def update_branch_def
        ex_parser_def ex_mapping_def ex_doc_R1_D3_S1_def rec_R1_D1_S1_def rec_R1_D2_S1_def
        getitem_def key_in_def incoming_id_def Let_def)

lemma ex_update_one_match:
  "calls (repositoryInsertRepertoire
     (ex_parser\<lparr>updateOnly := True,
                 repositoryGetRepertoires := (\<lambda>f v. [rec_R1_D1_S1, rec_R1_D2_S1])\<rparr>)
     (AList.update ''data_processing_id'' (PStr ''D2'') ex_doc_R1_D3_S1)) =
     [CallRepositoryGetRepertoireIDs (Some ''files'') (PStr ''a.tsv''),
      CallRepositoryGetRepertoires (Some ''repertoire_id'') (PStr ''R1''),
      CallUpdateRepertoire (Some ''_id'') (PObj 2)
        [(''files'', PStr ''a.tsv''), (''repertoire_id'', PStr ''R1''),
         (''data_processing_id'', PStr ''D2''), (''sample_processing_id'', PStr ''S1''),
         (''ir_updated_at'', PStr ''now'')]]"
  by (simp add: repositoryInsertRepertoire_def resolve_and_write_def update_branch_def
        ex_parser_def ex_mapping_def ex_doc_R1_D3_S1_def rec_R1_D1_S1_def rec_R1_D2_S1_def
        getitem_def key_in_def incoming_id_def Let_def)

end
